theory Spec2Isabelle
  imports Main "HOL-Library.Word" "HOL-Library.Char_ord" "HOL-Library.List_Lexorder"
    "HOL-Library.Multiset"
begin

unbundle bit_operations_syntax

section \<open>Data model of app.py\<close>

text \<open>
  Strings are lists of characters with codes below 256. Values of Python that the
  views put into the session are \<open>pyval\<close>; values SQLite keeps in the
  \<open>quantity INTEGER\<close> column are \<open>sqlval\<close> (a REAL is kept as mantissa and exponent,
  it is never computed with).
\<close>

datatype pyval = PyNone | PyBool bool | PyInt int | PyStr string

datatype sqlval = SqlNull | SqlInt int | SqlReal int int | SqlText string

text \<open>
  A row of table \<open>donations\<close>. \<open>donor_name\<close> is \<open>TEXT NOT NULL\<close>; the other text
  columns are nullable, except that the only INSERT of the program always binds a string to
  \<open>created_at\<close> and \<open>token\<close>.
\<close>

record donation =
  row_id :: nat
  donor_name :: string
  donor_phone :: "string option"
  donor_email :: "string option"
  donation_type :: "string option"
  quantity :: sqlval
  destination :: "string option"
  created_at :: string
  status :: "string option"
  token :: string
  photo_path :: "string option"

record user =
  user_id :: nat
  username :: "string option"
  password :: "string option"
  role :: "string option"

text \<open>
  Everything the program persists: the two tables, the AUTOINCREMENT counter of
  \<open>donations\<close>, and the files of \<open>static/uploads\<close> and \<open>static/qr\<close> by file name
  (a QR image is represented by the URL it encodes).
\<close>

record store =
  donations :: "donation list"
  donations_seq :: nat
  users :: "user list"
  upload_files :: "string \<rightharpoonup> string"
  qr_files :: "string \<rightharpoonup> string"

type_synonym session = "string \<rightharpoonup> pyval"

datatype http_method = GET | POST

record upload =
  filename :: string
  content :: string

record request =
  req_method :: http_method
  path :: string
  args :: "string \<rightharpoonup> string"
  form :: "string \<rightharpoonup> string"
  files :: "string \<rightharpoonup> upload"

text \<open>
  What a view reads from outside the program: the clock (already formatted by
  \<open>strftime\<close>), the bytes of the operating system's random source in the order they are
  drawn, Flask's external URL of the tracking page for a token, \<open>urllib.parse.quote\<close>,
  the value SQLite's INTEGER column affinity stores for a bound text, and whether the
  operating system creates and writes a file of a given name and content in the upload
  folder (it refuses, for one, a name that is too long).
\<close>

record env =
  now :: string
  urandom :: "nat \<Rightarrow> 8 word"
  track_url_for :: "string \<Rightarrow> string"
  url_quote :: "string \<Rightarrow> string"
  integer_affinity :: "string \<Rightarrow> sqlval"
  os_accepts :: "string \<Rightarrow> string \<Rightarrow> bool"

text \<open>
  The exceptions no view catches: SQLite's on a violated constraint and on a refused LIKE
  pattern, and Python's on opening a file for writing.
\<close>

datatype py_error = IntegrityError | OperationalError | OSError | ValueError

datatype endpoint = EpLogin string | EpAdminList | EpDonationQr string | EpUrl string

datatype response =
    Redirect endpoint
  | Plain string nat
  | Abort nat
  | Uncaught py_error
  | RenderLogin "string option"
  | RenderAdminList "donation list" string string
  | RenderNewDonation
  | RenderDonationQr donation string string
  | RenderTrack donation string string
  | RenderUpdate donation bool

section \<open>Python helpers\<close>

fun truthy :: "pyval \<Rightarrow> bool" where
  "truthy PyNone = False"
| "truthy (PyBool b) = b"
| "truthy (PyInt i) = (i \<noteq> 0)"
| "truthy (PyStr s) = (s \<noteq> [])"

text \<open>\<open>session.get(k)\<close>: a missing key reads as \<open>None\<close>.\<close>

definition session_get :: "session \<Rightarrow> string \<Rightarrow> pyval" where
  "session_get s k = (case s k of None \<Rightarrow> PyNone | Some v \<Rightarrow> v)"

definition opt_pyval :: "string option \<Rightarrow> pyval" where
  "opt_pyval v = (case v of None \<Rightarrow> PyNone | Some s \<Rightarrow> PyStr s)"

text \<open>\<open>str.isspace\<close> on the characters below 256, and \<open>str.strip()\<close>.\<close>

definition py_isspace :: "char \<Rightarrow> bool" where
  "py_isspace c =
     (let n = (of_char c :: nat)
      in (9 \<le> n \<and> n \<le> 13) \<or> (28 \<le> n \<and> n \<le> 32) \<or> n = 133 \<or> n = 160)"

definition strip :: "string \<Rightarrow> string" where
  "strip s = rev (dropWhile py_isspace (rev (dropWhile py_isspace s)))"

text \<open>\<open>str.lower()\<close> on the characters below 256.\<close>

definition py_lower_char :: "char \<Rightarrow> char" where
  "py_lower_char c =
     (let n = (of_char c :: nat)
      in if (65 \<le> n \<and> n \<le> 90) \<or> (192 \<le> n \<and> n \<le> 222 \<and> n \<noteq> 215)
         then char_of (n + 32) else c)"

definition lower :: "string \<Rightarrow> string" where
  "lower s = map py_lower_char s"

text \<open>
  The second component of \<open>os.path.splitext\<close> (POSIX): the extension starts at the last dot
  of the last path component, provided a character other than a dot comes before it there.
\<close>

definition splitext_ext :: "string \<Rightarrow> string" where
  "splitext_ext p =
     (let base = rev (takeWhile (\<lambda>c. c \<noteq> CHR ''/'') (rev p));
          rb = rev base
      in if CHR ''.'' \<notin> set base then []
         else let stem = rev (tl (dropWhile (\<lambda>c. c \<noteq> CHR ''.'') rb))
              in if list_ex (\<lambda>c. c \<noteq> CHR ''.'') stem
                 then CHR ''.'' # rev (takeWhile (\<lambda>c. c \<noteq> CHR ''.'') rb)
                 else [])"

text \<open>\<open>str(n)\<close> of a non-negative integer, as the f-strings format \<open>donation_id\<close>.\<close>

definition digit_char :: "nat \<Rightarrow> char" where
  "digit_char d = char_of (48 + d)"

fun str_nat :: "nat \<Rightarrow> string" where
  "str_nat n = (if n < 10 then [digit_char n] else str_nat (n div 10) @ [digit_char (n mod 10)])"

declare str_nat.simps [simp del]

text \<open>The number of bytes of a string in UTF-8, the encoding SQLite and the file system get.\<close>

definition utf8_length :: "string \<Rightarrow> nat" where
  "utf8_length s = sum_list (map (\<lambda>c. if (of_char c :: nat) < 128 then 1 else 2) s)"

section \<open>Authentication decorators\<close>

type_synonym view = "session \<Rightarrow> request \<Rightarrow> store \<Rightarrow> response \<times> store"

definition login_required :: "view \<Rightarrow> view" where
  "login_required f sess req db =
     (if \<not> truthy (session_get sess ''logged_in'')
      then (Redirect (EpLogin (path req)), db)
      else f sess req db)"

text \<open>The body of the 403 answer; its two accented letters are written by code.\<close>

definition msg_forbidden :: string where
  "msg_forbidden = ''No ten'' @ [CHR 0xE9] @ ''s permisos para esta acci'' @ [CHR 0xF3] @ ''n''"

definition role_required :: "string \<Rightarrow> view \<Rightarrow> view" where
  "role_required r f sess req db =
     (if session_get sess ''role'' \<noteq> PyStr r
      then (Plain msg_forbidden 403, db)
      else f sess req db)"

section \<open>Statements on table \<open>donations\<close>\<close>

text \<open>\<open>SELECT * FROM donations WHERE id = ?\<close> and \<open>WHERE token = ?\<close>, then \<open>fetchone()\<close>.\<close>

definition select_by_id :: "store \<Rightarrow> nat \<Rightarrow> donation option" where
  "select_by_id db i = find (\<lambda>d. row_id d = i) (donations db)"

definition select_by_token :: "store \<Rightarrow> string \<Rightarrow> donation option" where
  "select_by_token db t = find (\<lambda>d. token d = t) (donations db)"

text \<open>
  The INSERT of \<open>new_donation\<close>. It raises when \<open>donor_name\<close> is NULL (NOT NULL) or the
  token is already in the table (UNIQUE); otherwise the row gets the next AUTOINCREMENT id.
\<close>

definition next_row_id :: "store \<Rightarrow> nat" where
  "next_row_id db = Suc (foldr max (map row_id (donations db)) (donations_seq db))"

definition insert_donation ::
  "store \<Rightarrow> string option \<Rightarrow> string option \<Rightarrow> string option \<Rightarrow> string option \<Rightarrow> sqlval
     \<Rightarrow> string option \<Rightarrow> string \<Rightarrow> string \<Rightarrow> string \<Rightarrow> string option \<Rightarrow> py_error + store" where
  "insert_donation db name phone email dtype qty dest created st tok photo =
     (case name of
        None \<Rightarrow> Inl IntegrityError
      | Some n \<Rightarrow>
          if tok \<in> set (map token (donations db)) then Inl IntegrityError
          else Inr (db\<lparr>donations := donations db @
                         [\<lparr>row_id = next_row_id db, donor_name = n, donor_phone = phone,
                           donor_email = email, donation_type = dtype, quantity = qty,
                           destination = dest, created_at = created, status = Some st,
                           token = tok, photo_path = photo\<rparr>],
                       donations_seq := next_row_id db\<rparr>))"

text \<open>
  The UPDATE of \<open>update_donation\<close>: eight columns of the rows with the given id are set;
  \<open>created_at\<close> and \<open>token\<close> are not in its SET list. A NULL \<open>donor_name\<close> raises when a
  row is hit.
\<close>

definition update_row ::
  "store \<Rightarrow> nat \<Rightarrow> string option \<Rightarrow> string option \<Rightarrow> string option \<Rightarrow> string option \<Rightarrow> sqlval
     \<Rightarrow> string option \<Rightarrow> string option \<Rightarrow> string option \<Rightarrow> py_error + store" where
  "update_row db i name phone email dtype qty dest st photo =
     (case name of
        None \<Rightarrow> if list_ex (\<lambda>d. row_id d = i) (donations db) then Inl IntegrityError else Inr db
      | Some n \<Rightarrow>
          Inr (db\<lparr>donations :=
                    map (\<lambda>d. if row_id d = i
                             then d\<lparr>donor_name := n, donor_phone := phone, donor_email := email,
                                    donation_type := dtype, quantity := qty, destination := dest,
                                    status := st, photo_path := photo\<rparr>
                             else d)
                        (donations db)\<rparr>))"

text \<open>\<open>DELETE FROM donations WHERE id = ?\<close>.\<close>

definition delete_row :: "store \<Rightarrow> nat \<Rightarrow> store" where
  "delete_row db i = db\<lparr>donations := filter (\<lambda>d. row_id d \<noteq> i) (donations db)\<rparr>"

section \<open>Token and QR\<close>

text \<open>
  \<open>secrets.token_urlsafe(n)\<close>: \<open>n\<close> bytes of the random source, Base64 with the URL-safe
  alphabet, padding stripped.
\<close>

definition urlsafe_alphabet :: string where
  "urlsafe_alphabet = ''ABCDEFGHIJKLMNOPQRSTUVWXYZabcdefghijklmnopqrstuvwxyz0123456789-_''"

definition b64_char :: "nat \<Rightarrow> char" where
  "b64_char k = urlsafe_alphabet ! k"

text \<open>Three bytes give four characters, six bits each.\<close>

definition b64_group :: "8 word \<Rightarrow> 8 word \<Rightarrow> 8 word \<Rightarrow> string" where
  "b64_group a b c =
     [b64_char (unat a div 4),
      b64_char ((unat a mod 4) * 16 + unat b div 16),
      b64_char ((unat b mod 16) * 4 + unat c div 64),
      b64_char (unat c mod 64)]"

fun urlsafe_b64encode :: "8 word list \<Rightarrow> string" where
  "urlsafe_b64encode (a # b # c # rest) = b64_group a b c @ urlsafe_b64encode rest"
| "urlsafe_b64encode [a, b] =
     [b64_char (unat a div 4),
      b64_char ((unat a mod 4) * 16 + unat b div 16),
      b64_char ((unat b mod 16) * 4),
      CHR ''='']"
| "urlsafe_b64encode [a] =
     [b64_char (unat a div 4), b64_char ((unat a mod 4) * 16), CHR ''='', CHR ''='']"
| "urlsafe_b64encode [] = []"

definition token_bytes :: "nat \<Rightarrow> (nat \<Rightarrow> 8 word) \<Rightarrow> 8 word list" where
  "token_bytes n src = map src [0..<n]"

definition token_urlsafe :: "nat \<Rightarrow> (nat \<Rightarrow> 8 word) \<Rightarrow> string" where
  "token_urlsafe n src =
     rev (dropWhile (\<lambda>c. c = CHR ''='') (rev (urlsafe_b64encode (token_bytes n src))))"

definition generate_token :: "env \<Rightarrow> string" where
  "generate_token e = token_urlsafe 12 (urandom e)"

definition generate_qr_for_token :: "env \<Rightarrow> string \<Rightarrow> store \<Rightarrow> string \<times> store" where
  "generate_qr_for_token e tok db =
     (let track_url = track_url_for e tok;
          fname = ''qr_'' @ tok @ ''.png''
      in (fname, db\<lparr>qr_files := (qr_files db)(fname \<mapsto> track_url)\<rparr>))"

section \<open>Login\<close>

definition msg_bad_login :: string where
  "msg_bad_login = ''Usuario o contrase'' @ [CHR 0xF1] @ ''a incorrectos.''"

definition form_get :: "(string \<rightharpoonup> string) \<Rightarrow> string \<Rightarrow> string \<Rightarrow> string" where
  "form_get m k dflt = (case m k of None \<Rightarrow> dflt | Some v \<Rightarrow> v)"

text \<open>\<open>SELECT * FROM users WHERE username = ? AND password = ?\<close>, then \<open>fetchone()\<close>.\<close>

definition select_user :: "store \<Rightarrow> string \<Rightarrow> string \<Rightarrow> user option" where
  "select_user db uname pw =
     find (\<lambda>u. username u = Some uname \<and> password u = Some pw) (users db)"

definition login :: "session \<Rightarrow> request \<Rightarrow> store \<Rightarrow> response \<times> session" where
  "login sess req db =
     (if req_method req = POST then
        (let uname = strip (form_get (form req) ''username'' []);
             pw = strip (form_get (form req) ''password'' [])
         in case select_user db uname pw of
              Some u \<Rightarrow>
                (Redirect (case args req ''next'' of
                             None \<Rightarrow> EpAdminList
                           | Some n \<Rightarrow> if n = [] then EpAdminList else EpUrl n),
                 sess(''logged_in'' \<mapsto> PyBool True,
                      ''user_id'' \<mapsto> PyInt (int (user_id u)),
                      ''username'' \<mapsto> opt_pyval (username u),
                      ''role'' \<mapsto> opt_pyval (role u)))
            | None \<Rightarrow> (RenderLogin (Some msg_bad_login), sess))
      else (RenderLogin None, sess))"

section \<open>The panel: list, create\<close>

text \<open>
  SQLite's \<open>LIKE\<close> without ESCAPE: \<open>%\<close> matches any run of characters, \<open>_\<close> any one
  character, and the letters A to Z match in either case (SQLite's default; the program
  never sets \<open>case_sensitive_like\<close>). The comparison reads pattern and text as C strings:
  both end at their first NUL character. A NULL operand never matches. A pattern of more
  than 50000 bytes (SQLite's default limit) is refused with an error when the operator is
  evaluated on a row.
\<close>

definition c_string :: "string \<Rightarrow> string" where
  "c_string s = takeWhile (\<lambda>c. c \<noteq> CHR 0x00) s"

definition like_pattern_limit :: nat where
  "like_pattern_limit = 50000"

definition sqlite_fold :: "char \<Rightarrow> char" where
  "sqlite_fold c =
     (let n = (of_char c :: nat) in if 65 \<le> n \<and> n \<le> 90 then char_of (n + 32) else c)"

fun pattern_compare :: "string \<Rightarrow> string \<Rightarrow> bool" where
  "pattern_compare [] s = (s = [])"
| "pattern_compare (p # ps) [] = (p = CHR ''%'' \<and> pattern_compare ps [])"
| "pattern_compare (p # ps) (c # cs) =
     (if p = CHR ''%'' then pattern_compare ps (c # cs) \<or> pattern_compare (p # ps) cs
      else (p = CHR ''_'' \<or> sqlite_fold p = sqlite_fold c) \<and> pattern_compare ps cs)"

definition like :: "string \<Rightarrow> string \<Rightarrow> bool" where
  "like pat s = pattern_compare (c_string pat) (c_string s)"

definition col_like :: "string \<Rightarrow> string option \<Rightarrow> bool" where
  "col_like pat v = (case v of None \<Rightarrow> False | Some s \<Rightarrow> like pat s)"

definition where_clause :: "string \<Rightarrow> string \<Rightarrow> donation \<Rightarrow> bool" where
  "where_clause q status_filter d =
     ((q = [] \<or>
       (let pat = ''%'' @ q @ ''%''
        in like pat (donor_name d) \<or> col_like pat (donor_phone d) \<or> col_like pat (donor_email d)
           \<or> col_like pat (donation_type d) \<or> col_like pat (destination d) \<or> like pat (token d)))
      \<and> (status_filter = [] \<or> status d = Some status_filter))"

text \<open>
  \<open>ORDER BY created_at DESC\<close>: texts compare byte by byte. Rows with equal \<open>created_at\<close>
  are kept in table order here; SQL leaves their order open.
\<close>

fun insert_desc :: "donation \<Rightarrow> donation list \<Rightarrow> donation list" where
  "insert_desc x [] = [x]"
| "insert_desc x (y # ys) =
     (if created_at x < created_at y then y # insert_desc x ys else x # y # ys)"

definition order_by_created_at_desc :: "donation list \<Rightarrow> donation list" where
  "order_by_created_at_desc rows = foldr insert_desc rows []"

text \<open>
  The first term of the WHERE clause that SQLite evaluates on a row is the LIKE on
  \<open>donor_name\<close>: with a pattern over the limit the query raises as soon as the table
  has a row.
\<close>

definition admin_list_body :: view where
  "admin_list_body sess req db =
     (let q = strip (form_get (args req) ''q'' []);
          status_filter = strip (form_get (args req) ''status'' [])
      in if q \<noteq> [] \<and> like_pattern_limit < utf8_length (''%'' @ q @ ''%'') \<and> donations db \<noteq> []
         then (Uncaught OperationalError, db)
         else (RenderAdminList
                 (order_by_created_at_desc (filter (where_clause q status_filter) (donations db)))
                 q status_filter, db))"

definition admin_list :: view where
  "admin_list = login_required admin_list_body"

text \<open>\<open>request.form.get("quantity") or 0\<close>, as the INTEGER column stores it.\<close>

definition form_quantity :: "env \<Rightarrow> string option \<Rightarrow> sqlval" where
  "form_quantity e v =
     (case v of None \<Rightarrow> SqlInt 0 | Some s \<Rightarrow> if s = [] then SqlInt 0 else integer_affinity e s)"

definition new_donation_body :: "env \<Rightarrow> view" where
  "new_donation_body e sess req db =
     (if req_method req = POST then
        (let tok = generate_token e
         in case insert_donation db
                   (form req ''donor_name'') (form req ''donor_phone'') (form req ''donor_email'')
                   (form req ''donation_type'') (form_quantity e (form req ''quantity''))
                   (form req ''destination'') (now e) ''Registrada'' tok None of
              Inl err \<Rightarrow> (Uncaught err, db)
            | Inr db1 \<Rightarrow> (Redirect (EpDonationQr tok), snd (generate_qr_for_token e tok db1)))
      else (RenderNewDonation, db))"

definition new_donation :: "env \<Rightarrow> view" where
  "new_donation e = login_required (new_donation_body e)"

section \<open>The public tracking page\<close>

definition share_prefix :: string where
  "share_prefix = ''Te comparto el seguimiento de esta donaci'' @ [CHR 0xF3] @ ''n de ''
                  @ [CHR 0xC1] @ ''gape en acci'' @ [CHR 0xF3] @ ''n: ''"

definition track_donation :: "env \<Rightarrow> string \<Rightarrow> store \<Rightarrow> response \<times> store" where
  "track_donation e tok db =
     (case select_by_token db tok of
        None \<Rightarrow> (Abort 404, db)
      | Some d \<Rightarrow>
          (let track_url = track_url_for e tok;
               share_text = share_prefix @ track_url;
               whatsapp_url = ''https://wa.me/?text='' @ url_quote e share_text
           in (RenderTrack d track_url whatsapp_url, db)))"

section \<open>Update and delete\<close>

text \<open>
  The photo block of \<open>update_donation\<close>: a file part with a non-empty name is written to
  the upload folder under the donation's id and its lower-cased extension, and its relative
  path becomes the new \<open>photo_path\<close>; otherwise the row's \<open>photo_path\<close> is kept. The
  file is written before the UPDATE runs. Opening the file raises \<open>ValueError\<close> on a name
  with a NUL character and \<open>OSError\<close> on a name the operating system refuses: the
  request ends there, nothing is written and the UPDATE does not run.

  When the row is not in state Registrada the six descriptive values are read from the row
  and bound again; SQLite stores a value it has stored before unchanged.
\<close>

definition save_photo ::
  "env \<Rightarrow> nat \<Rightarrow> upload option \<Rightarrow> donation \<Rightarrow> store \<Rightarrow> py_error + (string option \<times> store)" where
  "save_photo e donation_id photo d db =
     (case photo of
        None \<Rightarrow> Inr (photo_path d, db)
      | Some ph \<Rightarrow>
          if filename ph \<noteq> [] then
            (let ext = lower (splitext_ext (filename ph));
                 fname = ''donation_'' @ str_nat donation_id @ ext
             in if CHR 0x00 \<in> set fname then Inl ValueError
                else if os_accepts e fname (content ph)
                then Inr (Some (''uploads/'' @ fname),
                          db\<lparr>upload_files := (upload_files db)(fname \<mapsto> content ph)\<rparr>)
                else Inl OSError)
          else Inr (photo_path d, db))"

definition update_donation_body :: "env \<Rightarrow> nat \<Rightarrow> view" where
  "update_donation_body e donation_id sess req db =
     (case select_by_id db donation_id of
        None \<Rightarrow> (Abort 404, db)
      | Some d \<Rightarrow>
          (let edit_allowed = (status d = Some ''Registrada'')
           in if req_method req = POST then
                (let new_status = form req ''status'';
                     name = (if edit_allowed then form req ''donor_name'' else Some (donor_name d));
                     phone = (if edit_allowed then form req ''donor_phone'' else donor_phone d);
                     email = (if edit_allowed then form req ''donor_email'' else donor_email d);
                     dtype = (if edit_allowed then form req ''donation_type''
                              else donation_type d);
                     qty = (if edit_allowed then form_quantity e (form req ''quantity'')
                            else quantity d);
                     dest = (if edit_allowed then form req ''destination'' else destination d)
                 in case save_photo e donation_id (files req ''photo'') d db of
                      Inl err \<Rightarrow> (Uncaught err, db)
                    | Inr saved \<Rightarrow>
                        (case update_row (snd saved) donation_id name phone email dtype qty dest
                                new_status (fst saved) of
                           Inl err \<Rightarrow> (Uncaught err, snd saved)
                         | Inr db2 \<Rightarrow> (Redirect (EpDonationQr (token d)), db2)))
              else (RenderUpdate d edit_allowed, db)))"

definition update_donation :: "env \<Rightarrow> nat \<Rightarrow> view" where
  "update_donation e donation_id = login_required (update_donation_body e donation_id)"

definition msg_not_deletable :: string where
  "msg_not_deletable = ''Solo se pueden eliminar donaciones en estado '' @ [CHR 0x27]
                       @ ''Registrada'' @ [CHR 0x27] @ ''.''"

definition delete_donation_body :: "nat \<Rightarrow> view" where
  "delete_donation_body donation_id sess req db =
     (case select_by_id db donation_id of
        None \<Rightarrow> (Abort 404, db)
      | Some d \<Rightarrow>
          if status d \<noteq> Some ''Registrada'' then (Plain msg_not_deletable 400, db)
          else (Redirect EpAdminList, delete_row db donation_id))"

definition delete_donation :: "nat \<Rightarrow> view" where
  "delete_donation donation_id =
     login_required (role_required ''admin'' (delete_donation_body donation_id))"

section \<open>Notions used by the properties\<close>

text \<open>A session counts as logged in when \<open>login_required\<close> lets it pass.\<close>

definition logged :: "session \<Rightarrow> bool" where
  "logged sess = truthy (session_get sess ''logged_in'')"

text \<open>What identifies a row for its donor: id, token and creation time.\<close>

definition stamp :: "donation \<Rightarrow> nat \<times> string \<times> string" where
  "stamp d = (row_id d, token d, created_at d)"

text \<open>The six descriptive fields of a row.\<close>

definition descriptive ::
  "donation \<Rightarrow> string \<times> string option \<times> string option \<times> string option \<times> sqlval \<times> string option" where
  "descriptive d =
     (donor_name d, donor_phone d, donor_email d, donation_type d, quantity d, destination d)"

text \<open>A sequence of update requests, each with its own environment, id and session.\<close>

fun run_updates :: "(env \<times> nat \<times> session \<times> request) list \<Rightarrow> store \<Rightarrow> store" where
  "run_updates [] db = db"
| "run_updates ((e, i, sess, req) # us) db = run_updates us (snd (update_donation e i sess req db))"

text \<open>
  The list filter as the specification words it: a field contains the query as a
  case-sensitive substring.
\<close>

fun has_substring :: "string \<Rightarrow> string \<Rightarrow> bool" where
  "has_substring q [] = (q = [])"
| "has_substring q (c # cs) = (take (length q) (c # cs) = q \<or> has_substring q cs)"

definition col_has_substring :: "string \<Rightarrow> string option \<Rightarrow> bool" where
  "col_has_substring q v = (case v of None \<Rightarrow> False | Some s \<Rightarrow> has_substring q s)"

definition spec_list_filter :: "string \<Rightarrow> string \<Rightarrow> donation \<Rightarrow> bool" where
  "spec_list_filter q status_filter d =
     ((q = [] \<or> has_substring q (donor_name d) \<or> col_has_substring q (donor_phone d)
         \<or> col_has_substring q (donor_email d) \<or> col_has_substring q (donation_type d)
         \<or> col_has_substring q (destination d) \<or> has_substring q (token d))
      \<and> (status_filter = [] \<or> status d = Some status_filter))"

text \<open>
  Containment, up to the case of the letters A to Z, in the part of a text before its
  first NUL character.
\<close>

definition fold_contains :: "string \<Rightarrow> string \<Rightarrow> bool" where
  "fold_contains q s = has_substring (map sqlite_fold q) (map sqlite_fold (c_string s))"

definition col_fold_contains :: "string \<Rightarrow> string option \<Rightarrow> bool" where
  "col_fold_contains q v = (case v of None \<Rightarrow> False | Some s \<Rightarrow> fold_contains q s)"

text \<open>
  URL-safe characters: the unreserved characters of a URL (letters, digits, hyphen,
  underscore, dot and tilde).
\<close>

definition url_safe :: "char \<Rightarrow> bool" where
  "url_safe c =
     (let n = (of_char c :: nat)
      in (48 \<le> n \<and> n \<le> 57) \<or> (65 \<le> n \<and> n \<le> 90) \<or> (97 \<le> n \<and> n \<le> 122)
         \<or> c = CHR ''-'' \<or> c = CHR ''_'' \<or> c = CHR ''.'' \<or> c = CHR ''~'')"

section \<open>Sample data\<close>

text \<open>
  A sample environment. Its affinity turns a run of decimal digits into an INTEGER and
  keeps any other text; quoting is left out of it; its file system takes names of up to
  255 bytes.
\<close>

definition short_name_accepted :: "string \<Rightarrow> string \<Rightarrow> bool" where
  "short_name_accepted name data = (utf8_length name \<le> 255)"

definition is_digit :: "char \<Rightarrow> bool" where
  "is_digit c = (48 \<le> (of_char c :: nat) \<and> (of_char c :: nat) \<le> 57)"

definition decimal_affinity :: "string \<Rightarrow> sqlval" where
  "decimal_affinity s =
     (if s \<noteq> [] \<and> list_all is_digit s
      then SqlInt (int (foldl (\<lambda>a c. 10 * a + (of_char c - 48)) 0 s))
      else SqlText s)"

definition local_track_url :: "string \<Rightarrow> string" where
  "local_track_url t = ''http://localhost:5000/track/'' @ t"

definition no_quote :: "string \<Rightarrow> string" where
  "no_quote s = s"

definition bytes_stepping :: "nat \<Rightarrow> 8 word" where
  "bytes_stepping i = of_nat (17 * i + 3)"

definition bytes_zero :: "nat \<Rightarrow> 8 word" where
  "bytes_zero i = 0"

definition bytes_ones :: "nat \<Rightarrow> 8 word" where
  "bytes_ones i = 255"

definition bytes_late :: "nat \<Rightarrow> 8 word" where
  "bytes_late i = (if i < 12 then 0 else 255)"

definition ex_env :: env where
  "ex_env = \<lparr>now = ''2025-03-01 10:00:00'', urandom = bytes_stepping,
             track_url_for = local_track_url, url_quote = no_quote,
             integer_affinity = decimal_affinity, os_accepts = short_name_accepted\<rparr>"

definition ex_env_zero :: env where
  "ex_env_zero = ex_env\<lparr>urandom := bytes_zero\<rparr>"

definition ex_env_ones :: env where
  "ex_env_ones = ex_env\<lparr>urandom := bytes_ones\<rparr>"

definition ex_env_late :: env where
  "ex_env_late = ex_env\<lparr>urandom := bytes_late\<rparr>"

definition ex_d1 :: donation where
  "ex_d1 = \<lparr>row_id = 1, donor_name = ''Ana'', donor_phone = Some ''555-1234'',
            donor_email = None, donation_type = Some ''Ropa'', quantity = SqlInt 3,
            destination = Some ''Comedor'', created_at = ''2025-01-10 09:30:00'',
            status = Some ''Registrada'', token = ''AxQlNkdYaXqLnK2-'', photo_path = None\<rparr>"

definition ex_d2 :: donation where
  "ex_d2 = \<lparr>row_id = 2, donor_name = ''Luis'', donor_phone = None,
            donor_email = Some ''luis@example.org'', donation_type = Some ''Alimentos'',
            quantity = SqlInt 12, destination = Some ''Hogar'',
            created_at = ''2025-02-03 17:05:41'', status = Some ''Entregada'',
            token = ''AAAAAAAAAAAAAAAA'', photo_path = Some ''uploads/donation_2.png''\<rparr>"

definition ex_admin :: user where
  "ex_admin = \<lparr>user_id = 1, username = Some ''admin'', password = Some ''agape2025'',
               role = Some ''admin''\<rparr>"

definition ex_staff :: user where
  "ex_staff = \<lparr>user_id = 2, username = Some ''marta'', password = Some ''s3creto'',
               role = Some ''staff''\<rparr>"

definition ex_db :: store where
  "ex_db = \<lparr>donations = [ex_d1, ex_d2], donations_seq = 2, users = [ex_admin, ex_staff],
            upload_files = Map.empty, qr_files = Map.empty\<rparr>"

definition anonymous :: session where
  "anonymous = Map.empty"

definition sess_admin :: session where
  "sess_admin = [''logged_in'' \<mapsto> PyBool True, ''user_id'' \<mapsto> PyInt 1,
                 ''username'' \<mapsto> PyStr ''admin'', ''role'' \<mapsto> PyStr ''admin'']"

definition sess_staff :: session where
  "sess_staff = [''logged_in'' \<mapsto> PyBool True, ''user_id'' \<mapsto> PyInt 2,
                 ''username'' \<mapsto> PyStr ''marta'', ''role'' \<mapsto> PyStr ''staff'']"

definition ex_photo :: upload where
  "ex_photo = \<lparr>filename = ''entrega.final.JPG'', content = ''jpeg bytes''\<rparr>"

definition ex_photo_nul :: upload where
  "ex_photo_nul = \<lparr>filename = ''entrega.j'' @ [CHR 0x00] @ ''pg'', content = ''jpeg bytes''\<rparr>"

definition ex_post_blank :: request where
  "ex_post_blank = \<lparr>req_method = POST, path = ''/admin/update/1'', args = Map.empty,
                    form = Map.empty, files = Map.empty\<rparr>"

definition ex_post_photo :: request where
  "ex_post_photo = ex_post_blank\<lparr>files := [''photo'' \<mapsto> ex_photo]\<rparr>"

definition ex_post_photo_nul :: request where
  "ex_post_photo_nul = ex_post_blank\<lparr>files := [''photo'' \<mapsto> ex_photo_nul]\<rparr>"

definition ex_post_edit :: request where
  "ex_post_edit = ex_post_blank
      \<lparr>form := [''donor_name'' \<mapsto> ''Ana Maria'', ''donor_phone'' \<mapsto> ''555-9999'',
                ''quantity'' \<mapsto> ''5'', ''status'' \<mapsto> ''En camino''],
       files := [''photo'' \<mapsto> ex_photo]\<rparr>"

definition ex_post_renamed :: request where
  "ex_post_renamed = ex_post_blank\<lparr>form := [''donor_name'' \<mapsto> ''Ana Maria'']\<rparr>"

definition ex_post_new :: request where
  "ex_post_new = \<lparr>req_method = POST, path = ''/new'', args = Map.empty,
                  form = [''donor_name'' \<mapsto> ''Ana''], files = Map.empty\<rparr>"

definition ex_post_delete :: request where
  "ex_post_delete = \<lparr>req_method = POST, path = ''/admin/delete/1'', args = Map.empty,
                     form = Map.empty, files = Map.empty\<rparr>"

definition ex_post_login :: request where
  "ex_post_login = \<lparr>req_method = POST, path = ''/login'', args = Map.empty,
                    form = [''username'' \<mapsto> '' admin'', ''password'' \<mapsto> ''agape2025 ''],
                    files = Map.empty\<rparr>"

definition ex_get_all :: request where
  "ex_get_all = \<lparr>req_method = GET, path = ''/'', args = Map.empty,
                 form = Map.empty, files = Map.empty\<rparr>"

definition ex_get_search :: request where
  "ex_get_search = \<lparr>req_method = GET, path = ''/'', args = [''q'' \<mapsto> ''ana''],
                    form = Map.empty, files = Map.empty\<rparr>"

section \<open>Lemmas on the update view\<close>

lemma save_photo_store:
  "save_photo e i ph d db = Inr saved \<Longrightarrow> donations (snd saved) = donations db"
  by (auto simp: save_photo_def Let_def split: option.splits if_splits)

lemma save_photo_none: "save_photo e i None d db = Inr (photo_path d, db)"
  by (simp add: save_photo_def)

lemma save_photo_empty:
  "filename ph = [] \<Longrightarrow> save_photo e i (Some ph) d db = Inr (photo_path d, db)"
  by (simp add: save_photo_def)

lemma save_photo_file:
  "filename ph \<noteq> [] \<Longrightarrow> save_photo e i (Some ph) d db = Inr saved \<Longrightarrow>
   fst saved = Some (''uploads/donation_'' @ str_nat i @ lower (splitext_ext (filename ph)))"
  by (auto simp: save_photo_def Let_def split: if_splits)

lemma save_photo_accepted:
  assumes "filename ph \<noteq> []"
    and "CHR 0x00 \<notin> set (''donation_'' @ str_nat i @ lower (splitext_ext (filename ph)))"
    and "os_accepts e (''donation_'' @ str_nat i @ lower (splitext_ext (filename ph))) (content ph)"
  shows "\<exists>saved. save_photo e i (Some ph) d db = Inr saved"
  using assms by (simp add: save_photo_def Let_def)

lemma find_map_rows:
  assumes "\<And>r. row_id (g r) = row_id r"
  shows "find (\<lambda>d. row_id d = i) (map (\<lambda>r. if row_id r = j then g r else r) ds) =
         map_option (\<lambda>r. if row_id r = j then g r else r) (find (\<lambda>d. row_id d = i) ds)"
  using assms by (induction ds) auto

lemma select_by_id_row: "select_by_id db i = Some d \<Longrightarrow> row_id d = i \<and> d \<in> set (donations db)"
  by (auto simp: select_by_id_def find_Some_iff)

lemma select_by_id_ex:
  "select_by_id db i = Some d \<Longrightarrow> list_ex (\<lambda>d. row_id d = i) (donations db)"
  by (auto simp: select_by_id_def find_Some_iff list_ex_iff)

text \<open>The outcomes of the view body: a POST ends in the error of the photo block, is
  rejected by the table, edits the row or only sets status and photo; a GET renders the
  form; an unknown id is a 404.\<close>

lemma update_body_unsaved:
  assumes "select_by_id db i = Some d" "req_method req = POST"
    "save_photo e i (files req ''photo'') d db = Inl err"
  shows "update_donation_body e i sess req db = (Uncaught err, db)"
  using assms by (simp add: update_donation_body_def Let_def)

lemma update_body_rejected:
  assumes "select_by_id db i = Some d" "req_method req = POST"
    "status d = Some ''Registrada''" "form req ''donor_name'' = None"
    "save_photo e i (files req ''photo'') d db = Inr saved"
  shows "update_donation_body e i sess req db = (Uncaught IntegrityError, snd saved)"
  using assms select_by_id_ex [OF assms(1)] save_photo_store [OF assms(5)]
  by (simp add: update_donation_body_def Let_def update_row_def)

lemma update_body_edit:
  assumes "select_by_id db i = Some d" "req_method req = POST"
    "status d = Some ''Registrada''" "form req ''donor_name'' = Some n"
    "save_photo e i (files req ''photo'') d db = Inr saved"
  shows "update_donation_body e i sess req db =
           (Redirect (EpDonationQr (token d)),
            (snd saved)
              \<lparr>donations :=
                 map (\<lambda>r. if row_id r = i
                          then r\<lparr>donor_name := n, donor_phone := form req ''donor_phone'',
                                 donor_email := form req ''donor_email'',
                                 donation_type := form req ''donation_type'',
                                 quantity := form_quantity e (form req ''quantity''),
                                 destination := form req ''destination'',
                                 status := form req ''status'',
                                 photo_path := fst saved\<rparr>
                          else r)
                     (donations db)\<rparr>)"
  using assms save_photo_store [OF assms(5)]
  by (simp add: update_donation_body_def Let_def update_row_def)

lemma update_body_locked:
  assumes "select_by_id db i = Some d" "req_method req = POST"
    "status d \<noteq> Some ''Registrada''"
    "save_photo e i (files req ''photo'') d db = Inr saved"
  shows "update_donation_body e i sess req db =
           (Redirect (EpDonationQr (token d)),
            (snd saved)
              \<lparr>donations :=
                 map (\<lambda>r. if row_id r = i
                          then r\<lparr>donor_name := donor_name d, donor_phone := donor_phone d,
                                 donor_email := donor_email d,
                                 donation_type := donation_type d,
                                 quantity := quantity d,
                                 destination := destination d,
                                 status := form req ''status'',
                                 photo_path := fst saved\<rparr>
                          else r)
                     (donations db)\<rparr>)"
  using assms save_photo_store [OF assms(4)]
  by (simp add: update_donation_body_def Let_def update_row_def)

lemma update_body_get:
  assumes "select_by_id db i = Some d" "req_method req \<noteq> POST"
  shows "update_donation_body e i sess req db =
           (RenderUpdate d (status d = Some ''Registrada''), db)"
  using assms by (simp add: update_donation_body_def Let_def)

lemma update_body_missing:
  assumes "select_by_id db i = None"
  shows "update_donation_body e i sess req db = (Abort 404, db)"
  using assms by (simp add: update_donation_body_def)

lemma update_logged:
  "logged sess \<Longrightarrow> update_donation e i sess req db = update_donation_body e i sess req db"
  by (simp add: update_donation_def login_required_def logged_def)

lemma update_anonymous:
  "\<not> logged sess \<Longrightarrow> update_donation e i sess req db = (Redirect (EpLogin (path req)), db)"
  by (simp add: update_donation_def login_required_def logged_def)

lemma update_row_stamp:
  "update_row db i n ph em ty q de st pp = Inr db' \<Longrightarrow> map stamp (donations db') = map stamp (donations db)"
  by (auto simp: update_row_def stamp_def split: option.splits if_splits)

lemma update_body_stamp:
  "map stamp (donations (snd (update_donation_body e i sess req db))) = map stamp (donations db)"
proof (cases "select_by_id db i")
  case None
  then show ?thesis by (simp add: update_donation_body_def)
next
  case (Some d)
  show ?thesis
  proof (cases "req_method req = POST")
    case False
    with Some show ?thesis by (simp add: update_donation_body_def Let_def)
  next
    case True
    show ?thesis
    proof (cases "save_photo e i (files req ''photo'') d db")
      case (Inl err)
      with Some True show ?thesis by (simp add: update_body_unsaved)
    next
      case (Inr saved)
      with Some True save_photo_store [OF Inr] show ?thesis
        by (auto simp: update_donation_body_def Let_def split: sum.splits dest!: update_row_stamp)
    qed
  qed
qed

lemma update_stamp:
  "map stamp (donations (snd (update_donation e i sess req db))) = map stamp (donations db)"
  by (simp add: update_donation_def login_required_def update_body_stamp)

lemma run_updates_stamp:
  "map stamp (donations (run_updates us db)) = map stamp (donations db)"
  by (induction us db rule: run_updates.induct) (simp_all add: update_stamp)

section \<open>Token and creation time under updates\<close>

text \<open>
  Claim C3. For every donation and every update request sent to the update view, the
  donation's token and creation timestamp after the update are the ones it had before:
  the rows of the table keep their ids, tokens and creation times, in the same order, after
  one update and after any sequence of updates.
\<close>

theorem update_keeps_token_and_created_at:
  "map stamp (donations (snd (update_donation e i sess req db))) = map stamp (donations db)
   \<and> map stamp (donations (run_updates us db)) = map stamp (donations db)"
  by (simp add: update_stamp run_updates_stamp)

theorem update_keeps_token_and_created_at_witness:
  "map stamp (donations (snd (update_donation ex_env 1 sess_admin ex_post_edit ex_db))) =
     [(1, ''AxQlNkdYaXqLnK2-'', ''2025-01-10 09:30:00''), (2, ''AAAAAAAAAAAAAAAA'', ''2025-02-03 17:05:41'')]
   \<and> map stamp (donations (run_updates [(ex_env, 1, sess_admin, ex_post_edit), (ex_env, 2, sess_staff, ex_post_photo)] ex_db)) =
     [(1, ''AxQlNkdYaXqLnK2-'', ''2025-01-10 09:30:00''), (2, ''AAAAAAAAAAAAAAAA'', ''2025-02-03 17:05:41'')]"
  using update_keeps_token_and_created_at [of ex_env 1 sess_admin ex_post_edit ex_db
      "[(ex_env, 1, sess_admin, ex_post_edit), (ex_env, 2, sess_staff, ex_post_photo)]"]
  by (simp add: stamp_def ex_db_def ex_d1_def ex_d2_def)

section \<open>The descriptive fields outside state Registrada\<close>

text \<open>
  Claim C1. The update view applies the submitted descriptive fields (donor name, phone,
  email, donation type, quantity, destination) only when the donation's current status is
  Registrada: for a donation whose status is not Registrada, the six stored values after
  any update request equal the values before it, whatever was submitted.
\<close>

theorem update_locked_fields:
  assumes "select_by_id db i = Some d" and "status d \<noteq> Some ''Registrada''"
  shows "map_option descriptive (select_by_id (snd (update_donation e j sess req db)) i)
           = Some (descriptive d)"
proof (cases "logged sess")
  case False
  with assms show ?thesis by (simp add: update_anonymous)
next
  case lg: True
  show ?thesis
  proof (cases "select_by_id db j")
    case None
    with assms lg show ?thesis by (simp add: update_logged update_body_missing)
  next
    case (Some dj)
    have rid: "row_id d = i" using select_by_id_row [OF assms(1)] by simp
    show ?thesis
    proof (cases "req_method req = POST")
      case False
      with assms lg Some show ?thesis by (simp add: update_logged update_body_get)
    next
      case post: True
      show ?thesis
      proof (cases "save_photo e j (files req ''photo'') dj db")
        case (Inl err)
        with assms lg Some post show ?thesis by (simp add: update_logged update_body_unsaved)
      next
        case sv: (Inr saved)
        note st = save_photo_store [OF sv]
        show ?thesis
        proof (cases "status dj = Some ''Registrada''")
          case reg: True
          then have ne: "j \<noteq> i" using assms Some by auto
          show ?thesis
          proof (cases "form req ''donor_name''")
            case None
            from update_body_rejected [OF Some post reg None sv] assms lg st show ?thesis
              by (simp add: update_logged select_by_id_def)
          next
            case (Some n)
            from update_body_edit [OF \<open>select_by_id db j = Some dj\<close> post reg Some sv]
              assms lg ne rid show ?thesis
              by (simp add: update_logged select_by_id_def find_map_rows)
          qed
        next
          case locked: False
          note body = update_body_locked [OF Some post locked sv]
          show ?thesis
          proof (cases "j = i")
            case True
            with assms Some have "dj = d" by simp
            with body assms lg True rid show ?thesis
              by (simp add: update_logged select_by_id_def find_map_rows descriptive_def)
          next
            case False
            with body assms lg rid show ?thesis
              by (simp add: update_logged select_by_id_def find_map_rows)
          qed
        qed
      qed
    qed
  qed
qed

theorem update_locked_fields_witness:
  "select_by_id ex_db 2 = Some ex_d2 \<and> status ex_d2 \<noteq> Some ''Registrada''
   \<and> map_option descriptive (select_by_id (snd (update_donation ex_env 2 sess_admin ex_post_edit ex_db)) 2)
       = Some (''Luis'', None, Some ''luis@example.org'', Some ''Alimentos'', SqlInt 12, Some ''Hogar'')"
proof -
  have a: "select_by_id ex_db 2 = Some ex_d2"
    by (simp add: select_by_id_def ex_db_def ex_d1_def ex_d2_def)
  have b: "status ex_d2 \<noteq> Some ''Registrada''"
    by (simp add: ex_d2_def)
  show ?thesis
    using update_locked_fields [OF a b, of ex_env 2 sess_admin ex_post_edit] a b
    by (simp add: descriptive_def ex_d2_def)
qed

lemma update_applies_fields_in_registrada:
  assumes "select_by_id db i = Some d" "status d = Some ''Registrada''" "logged sess"
    "req_method req = POST" "form req ''donor_name'' = Some n"
    "save_photo e i (files req ''photo'') d db = Inr saved"
  shows "map_option descriptive (select_by_id (snd (update_donation e i sess req db)) i)
           = Some (n, form req ''donor_phone'', form req ''donor_email'', form req ''donation_type'',
                   form_quantity e (form req ''quantity''), form req ''destination'')"
  using update_body_edit [OF assms(1,4,2,5,6)] assms(1,3) select_by_id_row [OF assms(1)]
  by (simp add: update_logged select_by_id_def find_map_rows descriptive_def)

section \<open>Status and photo on every update\<close>

text \<open>
  What the view does when the photo block and the UPDATE both run through: the stored
  status is what the form held, a photo with a file name replaces the photo reference, and
  without a photo file the reference is kept (this last on every request).
\<close>

lemma update_writes_submitted_status:
  assumes "select_by_id db i = Some d" "logged sess" "req_method req = POST"
    "status d \<noteq> Some ''Registrada'' \<or> form req ''donor_name'' \<noteq> None"
    "save_photo e i (files req ''photo'') d db = Inr saved"
  shows "map_option status (select_by_id (snd (update_donation e i sess req db)) i)
           = Some (form req ''status'')"
proof (cases "status d = Some ''Registrada''")
  case True
  with assms obtain n where n: "form req ''donor_name'' = Some n" by auto
  from update_body_edit [OF assms(1,3) True n assms(5)] assms(1,2) select_by_id_row [OF assms(1)]
  show ?thesis by (simp add: update_logged select_by_id_def find_map_rows)
next
  case False
  from update_body_locked [OF assms(1,3) False assms(5)] assms(1,2) select_by_id_row [OF assms(1)]
  show ?thesis by (simp add: update_logged select_by_id_def find_map_rows)
qed

lemma update_photo_replaced:
  assumes "select_by_id db i = Some d" "logged sess" "req_method req = POST"
    "status d \<noteq> Some ''Registrada'' \<or> form req ''donor_name'' \<noteq> None"
    "files req ''photo'' = Some ph" "filename ph \<noteq> []"
    "save_photo e i (files req ''photo'') d db = Inr saved"
  shows "map_option photo_path (select_by_id (snd (update_donation e i sess req db)) i)
           = Some (Some (''uploads/donation_'' @ str_nat i @ lower (splitext_ext (filename ph))))"
proof -
  have pp: "fst saved = Some (''uploads/donation_'' @ str_nat i @ lower (splitext_ext (filename ph)))"
    using save_photo_file [OF assms(6)] assms(5,7) by simp
  show ?thesis
  proof (cases "status d = Some ''Registrada''")
    case True
    with assms obtain n where n: "form req ''donor_name'' = Some n" by auto
    from update_body_edit [OF assms(1,3) True n assms(7)] assms(1,2) pp
      select_by_id_row [OF assms(1)]
    show ?thesis by (simp add: update_logged select_by_id_def find_map_rows)
  next
    case False
    from update_body_locked [OF assms(1,3) False assms(7)] assms(1,2) pp
      select_by_id_row [OF assms(1)]
    show ?thesis by (simp add: update_logged select_by_id_def find_map_rows)
  qed
qed

lemma update_photo_kept:
  assumes "select_by_id db i = Some d"
    and "files req ''photo'' = None \<or> (\<exists>ph. files req ''photo'' = Some ph \<and> filename ph = [])"
  shows "map_option photo_path (select_by_id (snd (update_donation e i sess req db)) i)
           = Some (photo_path d)"
proof -
  have sv: "save_photo e i (files req ''photo'') d db = Inr (photo_path d, db)"
    using assms(2) by (auto simp: save_photo_none save_photo_empty)
  have rid: "row_id d = i" using select_by_id_row [OF assms(1)] by simp
  show ?thesis
  proof (cases "logged sess")
    case False
    with assms show ?thesis by (simp add: update_anonymous)
  next
    case lg: True
    show ?thesis
    proof (cases "req_method req = POST")
      case False
      with assms lg show ?thesis by (simp add: update_logged update_body_get)
    next
      case post: True
      show ?thesis
      proof (cases "status d = Some ''Registrada''")
        case reg: True
        show ?thesis
        proof (cases "form req ''donor_name''")
          case None
          from update_body_rejected [OF assms(1) post reg None sv] assms(1) lg show ?thesis
            by (simp add: update_logged)
        next
          case (Some n)
          from update_body_edit [OF assms(1) post reg Some sv] assms(1) lg rid show ?thesis
            by (simp add: update_logged select_by_id_def find_map_rows)
        qed
      next
        case False
        from update_body_locked [OF assms(1) post False sv] assms(1) lg rid show ?thesis
          by (simp add: update_logged select_by_id_def find_map_rows)
      qed
    qed
  qed
qed

text \<open>
  A photo whose file name carries a NUL character ends the request in the photo block: the
  row, here in state Entregada, keeps status and photo reference.
\<close>

lemma update_unsaved_photo_example:
  "update_donation ex_env 2 sess_staff ex_post_photo_nul ex_db = (Uncaught ValueError, ex_db)"
proof -
  have sel: "select_by_id ex_db 2 = Some ex_d2"
    by (simp add: select_by_id_def ex_db_def ex_d1_def ex_d2_def)
  have post: "req_method ex_post_photo_nul = POST"
    by (simp add: ex_post_photo_nul_def ex_post_blank_def)
  have ext: "lower (splitext_ext (filename ex_photo_nul))
               = [CHR ''.'', CHR ''j'', CHR 0x00, CHR ''p'', CHR ''g'']"
    by code_simp
  have nm: "filename ex_photo_nul \<noteq> []"
    by (simp add: ex_photo_nul_def)
  have sv: "save_photo ex_env 2 (files ex_post_photo_nul ''photo'') ex_d2 ex_db = Inl ValueError"
    using ext nm by (simp add: save_photo_def Let_def ex_post_photo_nul_def ex_post_blank_def)
  have lg: "logged sess_staff"
    by (simp add: logged_def session_get_def sess_staff_def)
  from update_body_unsaved [OF sel post sv] lg show ?thesis
    by (simp add: update_logged)
qed

text \<open>
  Claim C10. For every existing donation, an update request whose form omits the status
  field sets the stored status to NULL rather than retaining the previous status: the
  submitted status value is written unconditionally, even when absent (the docstring of the
  view: status and photo always). The view breaks this on the request below, a POST by the
  logged-in admin on donation 1, in state Registrada, whose form holds neither
  \<open>status\<close> nor \<open>donor_name\<close>: NULL is bound to the NOT NULL column
  \<open>donor_name\<close>, the UPDATE raises, nothing catches the error, and the row keeps its
  status Registrada.
\<close>

theorem update_omitted_status_not_written:
  "select_by_id ex_db 1 = Some ex_d1 \<and> logged sess_admin \<and> req_method ex_post_blank = POST
   \<and> form ex_post_blank ''status'' = None
   \<and> update_donation ex_env 1 sess_admin ex_post_blank ex_db = (Uncaught IntegrityError, ex_db)
   \<and> map_option status (select_by_id (snd (update_donation ex_env 1 sess_admin ex_post_blank ex_db)) 1)
       = Some (Some ''Registrada'')"
  by (simp add: update_donation_def login_required_def update_donation_body_def update_row_def
      logged_def save_photo_def select_by_id_def session_get_def ex_db_def ex_d1_def ex_d2_def
      sess_admin_def ex_post_blank_def)

text \<open>
  Claim C7. For every donation and every update request, if a new photo file is supplied
  the stored photo reference afterwards is the reference derived from the new upload,
  replacing any previous one, and if no photo file is supplied the stored photo reference
  afterwards equals the one stored before (the docstring of the view: status and photo
  always). The view breaks the first half on the request below, a POST by the logged-in
  admin on donation 1, in state Registrada, with the photo \<open>entrega.final.JPG\<close> and a
  form without \<open>donor_name\<close>: the file \<open>donation_1.jpg\<close> is written, then NULL is
  bound to the NOT NULL column \<open>donor_name\<close>, the UPDATE raises, nothing catches the
  error, and the row's photo reference stays NULL.
\<close>

theorem update_photo_not_replaced:
  "select_by_id ex_db 1 = Some ex_d1 \<and> logged sess_admin \<and> req_method ex_post_photo = POST
   \<and> files ex_post_photo ''photo'' = Some ex_photo \<and> filename ex_photo = ''entrega.final.JPG''
   \<and> fst (update_donation ex_env 1 sess_admin ex_post_photo ex_db) = Uncaught IntegrityError
   \<and> upload_files (snd (update_donation ex_env 1 sess_admin ex_post_photo ex_db)) ''donation_1.jpg''
       = Some ''jpeg bytes''
   \<and> map_option photo_path (select_by_id (snd (update_donation ex_env 1 sess_admin ex_post_photo ex_db)) 1)
       = Some None"
proof -
  have sel: "select_by_id ex_db 1 = Some ex_d1"
    by (simp add: select_by_id_def ex_db_def ex_d1_def)
  have lg: "logged sess_admin"
    by (simp add: logged_def session_get_def sess_admin_def)
  have rq: "req_method ex_post_photo = POST" "files ex_post_photo ''photo'' = Some ex_photo"
    "form ex_post_photo ''donor_name'' = None"
    by (simp_all add: ex_post_photo_def ex_post_blank_def)
  have st: "status ex_d1 = Some ''Registrada''" "photo_path ex_d1 = None"
    by (simp_all add: ex_d1_def)
  have nm: "filename ex_photo = ''entrega.final.JPG''" "content ex_photo = ''jpeg bytes''"
    by (simp_all add: ex_photo_def)
  have fn: "str_nat (Suc 0) = ''1''" "lower (splitext_ext ''entrega.final.JPG'') = ''.jpg''"
    by code_simp+
  have ok: "os_accepts ex_env ''donation_1.jpg'' ''jpeg bytes''"
    by (simp add: ex_env_def short_name_accepted_def utf8_length_def)
  have sv: "save_photo ex_env 1 (files ex_post_photo ''photo'') ex_d1 ex_db =
              Inr (Some ''uploads/donation_1.jpg'',
                   ex_db\<lparr>upload_files := (upload_files ex_db)(''donation_1.jpg'' \<mapsto> ''jpeg bytes'')\<rparr>)"
    using fn ok by (simp add: save_photo_def Let_def rq nm)
  from update_body_rejected [OF sel rq(1) st(1) rq(3) sv] sel lg rq nm st show ?thesis
    by (simp add: update_logged select_by_id_def)
qed

section \<open>Delete\<close>

lemma delete_row_changes:
  assumes "select_by_id db i = Some d"
  shows "delete_row db i \<noteq> db"
proof
  assume eq: "delete_row db i = db"
  have "donations (delete_row db i) = filter (\<lambda>d. row_id d \<noteq> i) (donations db)"
    by (simp add: delete_row_def)
  with eq have "filter (\<lambda>d. row_id d \<noteq> i) (donations db) = donations db" by simp
  then have "\<forall>r\<in>set (donations db). row_id r \<noteq> i" by (simp add: filter_id_conv)
  with select_by_id_row [OF assms] show False by blast
qed

lemma delete_row_gone: "select_by_id (delete_row db i) i = None"
  by (simp add: delete_row_def select_by_id_def find_None_iff)

lemma delete_row_others:
  "j \<noteq> i \<Longrightarrow> select_by_id (delete_row db i) j = select_by_id db j"
proof -
  have "j \<noteq> i \<Longrightarrow> find (\<lambda>d. row_id d = j) (filter (\<lambda>d. row_id d \<noteq> i) ds) = find (\<lambda>d. row_id d = j) ds" for ds
    by (induction ds) auto
  then show "j \<noteq> i \<Longrightarrow> ?thesis" by (simp add: delete_row_def select_by_id_def)
qed

lemma delete_anonymous:
  "\<not> logged sess \<Longrightarrow> delete_donation i sess req db = (Redirect (EpLogin (path req)), db)"
  by (simp add: delete_donation_def login_required_def logged_def)

lemma delete_forbidden:
  "logged sess \<Longrightarrow> session_get sess ''role'' \<noteq> PyStr ''admin'' \<Longrightarrow>
   delete_donation i sess req db = (Plain msg_forbidden 403, db)"
  by (simp add: delete_donation_def login_required_def role_required_def logged_def)

lemma delete_admin:
  "logged sess \<Longrightarrow> session_get sess ''role'' = PyStr ''admin'' \<Longrightarrow>
   delete_donation i sess req db = delete_donation_body i sess req db"
  by (simp add: delete_donation_def login_required_def role_required_def logged_def)

text \<open>
  A request without a login never reaches the role check: it is sent to the login page,
  which is neither the 400 nor the 403 answer.
\<close>

theorem delete_counterexample:
  "select_by_id ex_db 1 = Some ex_d1 \<and> status ex_d1 = Some ''Registrada''
   \<and> session_get anonymous ''role'' \<noteq> PyStr ''admin''
   \<and> delete_donation 1 anonymous ex_post_delete ex_db = (Redirect (EpLogin ''/admin/delete/1''), ex_db)"
  by (simp add: delete_donation_def login_required_def session_get_def anonymous_def
      select_by_id_def ex_db_def ex_d1_def ex_post_delete_def)

text \<open>
  Claim C2, amended. For every existing donation, the delete view removes the row if and
  only if the session is logged in, its role is admin and the donation's status is
  Registrada. In every other case the store, and with it the row and all its fields, is
  unchanged, and the answer is a redirect to the login page when the session is not logged
  in, the 403 answer when it is logged in with another role, and the 400 answer when it is
  logged in as admin and the status is not Registrada.
\<close>

theorem delete_policy:
  assumes "select_by_id db i = Some d"
  shows "(logged sess \<and> session_get sess ''role'' = PyStr ''admin'' \<and> status d = Some ''Registrada''
          \<longrightarrow> delete_donation i sess req db = (Redirect EpAdminList, delete_row db i)
              \<and> select_by_id (delete_row db i) i = None \<and> delete_row db i \<noteq> db)
       \<and> (\<not> logged sess
          \<longrightarrow> delete_donation i sess req db = (Redirect (EpLogin (path req)), db))
       \<and> (logged sess \<and> session_get sess ''role'' \<noteq> PyStr ''admin''
          \<longrightarrow> delete_donation i sess req db = (Plain msg_forbidden 403, db))
       \<and> (logged sess \<and> session_get sess ''role'' = PyStr ''admin'' \<and> status d \<noteq> Some ''Registrada''
          \<longrightarrow> delete_donation i sess req db = (Plain msg_not_deletable 400, db))"
  using assms delete_row_changes [OF assms]
  by (simp add: delete_anonymous delete_forbidden delete_admin delete_donation_body_def delete_row_gone)

theorem delete_policy_witness:
  "select_by_id ex_db 1 = Some ex_d1 \<and> logged sess_admin
   \<and> session_get sess_admin ''role'' = PyStr ''admin'' \<and> status ex_d1 = Some ''Registrada''
   \<and> delete_donation 1 sess_admin ex_post_delete ex_db = (Redirect EpAdminList, delete_row ex_db 1)
   \<and> donations (delete_row ex_db 1) = [ex_d2]
   \<and> select_by_id ex_db 2 = Some ex_d2 \<and> status ex_d2 \<noteq> Some ''Registrada''
   \<and> delete_donation 2 sess_admin ex_post_delete ex_db = (Plain msg_not_deletable 400, ex_db)
   \<and> logged sess_staff \<and> session_get sess_staff ''role'' \<noteq> PyStr ''admin''
   \<and> delete_donation 1 sess_staff ex_post_delete ex_db = (Plain msg_forbidden 403, ex_db)"
proof -
  have a: "select_by_id ex_db 1 = Some ex_d1" "select_by_id ex_db 2 = Some ex_d2"
    by (simp_all add: select_by_id_def ex_db_def ex_d1_def ex_d2_def)
  have b: "logged sess_admin" "session_get sess_admin ''role'' = PyStr ''admin''"
    "logged sess_staff" "session_get sess_staff ''role'' \<noteq> PyStr ''admin''"
    by (simp_all add: logged_def session_get_def sess_admin_def sess_staff_def)
  have c: "status ex_d1 = Some ''Registrada''" "status ex_d2 \<noteq> Some ''Registrada''"
    by (simp_all add: ex_d1_def ex_d2_def)
  have d: "donations (delete_row ex_db 1) = [ex_d2]"
    by (simp add: delete_row_def ex_db_def ex_d1_def ex_d2_def)
  show ?thesis
    using delete_policy [OF a(1), of sess_admin ex_post_delete]
      delete_policy [OF a(2), of sess_admin ex_post_delete]
      delete_policy [OF a(1), of sess_staff ex_post_delete]
      a b c d by simp
qed


section \<open>Lemmas on the token\<close>

lemma alphabet_length: "length urlsafe_alphabet = 64"
  by (simp add: urlsafe_alphabet_def)

lemma alphabet_distinct: "distinct urlsafe_alphabet"
  by (simp add: urlsafe_alphabet_def)

lemma alphabet_url_safe: "list_all url_safe urlsafe_alphabet"
  by (simp add: urlsafe_alphabet_def url_safe_def)

lemma alphabet_no_pad: "CHR ''='' \<notin> set urlsafe_alphabet"
  by (simp add: urlsafe_alphabet_def)

lemma b64_char_mem: "k < 64 \<Longrightarrow> b64_char k \<in> set urlsafe_alphabet"
  by (simp add: b64_char_def alphabet_length)

lemma b64_char_inj:
  assumes "k < 64" "l < 64" "b64_char k = b64_char l"
  shows "k = l"
proof -
  have "k < length urlsafe_alphabet" "l < length urlsafe_alphabet"
    using assms(1,2) by (simp_all only: alphabet_length)
  from nth_eq_iff_index_eq [OF alphabet_distinct this] assms(3)
  show ?thesis unfolding b64_char_def by blast
qed

lemma byte_bound: "unat (a :: 8 word) < 256"
  using unsigned_less [of a, where ?'a = nat] by simp


lemma b64_group_length: "length (b64_group a b c) = 4"
  by (simp add: b64_group_def)

lemma digits_eq:
  fixes p q :: nat
  assumes "p * m + q = p' * m + q'" "q < m" "q' < m"
  shows "p = p' \<and> q = q'"
proof -
  have "(p * m + q) div m = p" "(p * m + q) mod m = q" using assms(2) by simp_all
  moreover have "(p' * m + q') div m = p'" "(p' * m + q') mod m = q'" using assms(3) by simp_all
  ultimately show ?thesis using assms(1) by simp
qed

lemma div_mod_eq:
  fixes x y :: nat
  assumes "x div m = y div m" "x mod m = y mod m"
  shows "x = y"
proof -
  have "x = m * (x div m) + x mod m" by simp
  also have "\<dots> = m * (y div m) + y mod m" using assms by simp
  also have "\<dots> = y" by simp
  finally show ?thesis .
qed

lemma sextet_bounds:
  fixes a b :: "8 word"
  shows "unat a div 4 < 64" "(unat a mod 4) * 16 + unat b div 16 < 64"
    "(unat a mod 16) * 4 + unat b div 64 < 64" "unat a mod 64 < 64"
    "unat a div 16 < 16" "unat a div 64 < 4"
  using byte_bound [of a] byte_bound [of b] by simp_all

lemma b64_group_chars: "set (b64_group a b c) \<subseteq> set urlsafe_alphabet"
  by (simp add: b64_group_def b64_char_mem sextet_bounds)

lemma b64_group_inj:
  assumes "b64_group a b c = b64_group a' b' c'"
  shows "a = a' \<and> b = b' \<and> c = c'"
proof -
  have c1: "b64_char (unat a div 4) = b64_char (unat a' div 4)"
    and c2: "b64_char ((unat a mod 4) * 16 + unat b div 16)
             = b64_char ((unat a' mod 4) * 16 + unat b' div 16)"
    and c3: "b64_char ((unat b mod 16) * 4 + unat c div 64)
             = b64_char ((unat b' mod 16) * 4 + unat c' div 64)"
    and c4: "b64_char (unat c mod 64) = b64_char (unat c' mod 64)"
    using assms by (simp_all add: b64_group_def)
  have e1: "unat a div 4 = unat a' div 4"
    by (rule b64_char_inj [OF sextet_bounds(1) sextet_bounds(1) c1])
  have e2: "(unat a mod 4) * 16 + unat b div 16 = (unat a' mod 4) * 16 + unat b' div 16"
    by (rule b64_char_inj [OF sextet_bounds(2) sextet_bounds(2) c2])
  have e3: "(unat b mod 16) * 4 + unat c div 64 = (unat b' mod 16) * 4 + unat c' div 64"
    by (rule b64_char_inj [OF sextet_bounds(3) sextet_bounds(3) c3])
  have e4: "unat c mod 64 = unat c' mod 64"
    by (rule b64_char_inj [OF sextet_bounds(4) sextet_bounds(4) c4])
  have f2: "unat a mod 4 = unat a' mod 4 \<and> unat b div 16 = unat b' div 16"
    by (rule digits_eq [OF e2 sextet_bounds(5) sextet_bounds(5)])
  have f3: "unat b mod 16 = unat b' mod 16 \<and> unat c div 64 = unat c' div 64"
    by (rule digits_eq [OF e3 sextet_bounds(6) sextet_bounds(6)])
  have "unat a = unat a'" by (rule div_mod_eq [of _ 4]) (use e1 f2 in simp_all)
  moreover have "unat b = unat b'" by (rule div_mod_eq [of _ 16]) (use f2 f3 in simp_all)
  moreover have "unat c = unat c'" by (rule div_mod_eq [of _ 64]) (use f3 e4 in simp_all)
  ultimately show ?thesis by (simp add: word_unat_eq_iff)
qed

lemma b64_no_pad:
  "length bs mod 3 = 0 \<Longrightarrow> set (urlsafe_b64encode bs) \<subseteq> set urlsafe_alphabet"
proof (induction bs rule: urlsafe_b64encode.induct)
  case (1 a b c rest)
  then have "length rest mod 3 = 0" by simp
  with 1 b64_group_chars [of a b c] show ?case by auto
qed simp_all

lemma b64_length:
  "length bs mod 3 = 0 \<Longrightarrow> length (urlsafe_b64encode bs) = 4 * (length bs div 3)"
proof (induction bs rule: urlsafe_b64encode.induct)
  case (1 a b c rest)
  then have m: "length rest mod 3 = 0" by simp
  have "(3 + length rest) div 3 = Suc (length rest div 3)" by simp
  with 1 m show ?case by (simp add: b64_group_length)
qed simp_all

lemma b64_inj:
  "length bs mod 3 = 0 \<Longrightarrow> length cs = length bs \<Longrightarrow>
   urlsafe_b64encode bs = urlsafe_b64encode cs \<Longrightarrow> bs = cs"
proof (induction bs arbitrary: cs rule: urlsafe_b64encode.induct)
  case (1 a b c rest)
  from 1(3) obtain a' b' c' rest' where cs: "cs = a' # b' # c' # rest'"
    by (auto simp: length_Suc_conv)
  from 1(2) have m: "length rest mod 3 = 0" by simp
  from 1(4) cs have "b64_group a b c @ urlsafe_b64encode rest
                     = b64_group a' b' c' @ urlsafe_b64encode rest'" by simp
  then have g: "b64_group a b c = b64_group a' b' c'"
    and r: "urlsafe_b64encode rest = urlsafe_b64encode rest'"
    by (simp_all add: b64_group_length)
  from 1(3) cs have "length rest' = length rest" by simp
  then have "rest = rest'" using 1(1) [OF m _ r] by simp
  with b64_group_inj [OF g] cs show ?case by simp
qed simp_all

lemma rstrip_none:
  assumes "\<forall>c\<in>set s. \<not> P c"
  shows "rev (dropWhile P (rev s)) = s"
proof -
  have "dropWhile P (rev s) = rev s"
    using assms by (cases "rev s") (auto simp: rev_swap [symmetric])
  then show ?thesis by simp
qed

lemma token_urlsafe_whole:
  assumes "n mod 3 = 0"
  shows "token_urlsafe n src = urlsafe_b64encode (token_bytes n src)"
proof -
  have "length (token_bytes n src) mod 3 = 0" using assms by (simp add: token_bytes_def)
  from b64_no_pad [OF this] alphabet_no_pad
  have "\<forall>c\<in>set (urlsafe_b64encode (token_bytes n src)). \<not> c = CHR ''=''" by blast
  then show ?thesis unfolding token_urlsafe_def by (rule rstrip_none)
qed

lemma generate_token_length: "length (generate_token e) = 16"
  by (simp add: generate_token_def token_urlsafe_whole b64_length token_bytes_def)

lemma generate_token_chars: "set (generate_token e) \<subseteq> set urlsafe_alphabet"
  by (simp add: generate_token_def token_urlsafe_whole b64_no_pad token_bytes_def)

lemma generate_token_eq_iff:
  "generate_token e = generate_token e' \<longleftrightarrow> (\<forall>i<12. urandom e i = urandom e' i)"
proof
  assume "generate_token e = generate_token e'"
  then have "urlsafe_b64encode (token_bytes 12 (urandom e))
             = urlsafe_b64encode (token_bytes 12 (urandom e'))"
    by (simp add: generate_token_def token_urlsafe_whole)
  then have "token_bytes 12 (urandom e) = token_bytes 12 (urandom e')"
    by (intro b64_inj) (simp_all add: token_bytes_def)
  then show "\<forall>i<12. urandom e i = urandom e' i"
    by (simp add: token_bytes_def)
next
  assume "\<forall>i<12. urandom e i = urandom e' i"
  then have "token_bytes 12 (urandom e) = token_bytes 12 (urandom e')"
    by (simp add: token_bytes_def)
  then show "generate_token e = generate_token e'"
    by (simp add: generate_token_def token_urlsafe_def)
qed

section \<open>Lemmas on the create view\<close>

lemma new_anonymous:
  "\<not> logged sess \<Longrightarrow> new_donation e sess req db = (Redirect (EpLogin (path req)), db)"
  by (simp add: new_donation_def login_required_def logged_def)

lemma new_logged:
  "logged sess \<Longrightarrow> new_donation e sess req db = new_donation_body e sess req db"
  by (simp add: new_donation_def login_required_def logged_def)

lemma new_body_collision:
  assumes "req_method req = POST" "generate_token e \<in> set (map token (donations db))"
  shows "new_donation_body e sess req db = (Uncaught IntegrityError, db)"
  using assms by (simp add: new_donation_body_def insert_donation_def Let_def split: option.splits)

lemma new_body_created:
  assumes "req_method req = POST" "form req ''donor_name'' = Some n"
    "generate_token e \<notin> set (map token (donations db))"
  shows "new_donation_body e sess req db =
           (Redirect (EpDonationQr (generate_token e)),
            db\<lparr>donations := donations db @
                   [\<lparr>row_id = next_row_id db, donor_name = n,
                     donor_phone = form req ''donor_phone'', donor_email = form req ''donor_email'',
                     donation_type = form req ''donation_type'',
                     quantity = form_quantity e (form req ''quantity''),
                     destination = form req ''destination'', created_at = now e,
                     status = Some ''Registrada'', token = generate_token e, photo_path = None\<rparr>],
                donations_seq := next_row_id db,
                qr_files := (qr_files db)(''qr_'' @ generate_token e @ ''.png''
                                            \<mapsto> track_url_for e (generate_token e))\<rparr>)"
  using assms
  by (simp add: new_donation_body_def insert_donation_def generate_qr_for_token_def Let_def)

lemma form_quantity_default:
  "v = None \<or> v = Some [] \<Longrightarrow> form_quantity e v = SqlInt 0"
  by (auto simp: form_quantity_def)


lemma ex_tokens:
  "generate_token ex_env = ''AxQlNkdYaXqLnK2-''" "generate_token ex_env_zero = ''AAAAAAAAAAAAAAAA''"
  "generate_token ex_env_ones = ''________________''" "generate_token ex_env_late = ''AAAAAAAAAAAAAAAA''"
  by code_simp+

lemma ex_logged: "logged sess_admin" "logged sess_staff" "\<not> logged anonymous"
  by (simp_all add: logged_def session_get_def sess_admin_def sess_staff_def anonymous_def)

section \<open>Create\<close>

text \<open>
  A create request with a donor name whose generated token is already in the table: the
  INSERT raises on the UNIQUE column and nothing is stored.
\<close>

theorem create_counterexample:
  "logged sess_admin \<and> req_method ex_post_new = POST \<and> form ex_post_new ''donor_name'' = Some ''Ana''
   \<and> new_donation ex_env sess_admin ex_post_new ex_db = (Uncaught IntegrityError, ex_db)"
proof -
  have "generate_token ex_env \<in> set (map token (donations ex_db))"
    by (simp add: ex_tokens ex_db_def ex_d1_def)
  then show ?thesis
    by (simp add: ex_logged new_logged new_body_collision ex_post_new_def)
qed

text \<open>
  Claim C4, amended. For every create request (a POST by a logged-in session) in which the
  donor name is supplied and whose generated token is not yet in the table, create succeeds:
  it appends a row with status Registrada, no photo reference, the generated token, the
  current time as creation timestamp and the submitted fields, and it writes the QR file
  \<open>qr_<token>.png\<close> for the tracking URL of that token. When the quantity field is
  omitted or empty the stored quantity is the integer 0. When the generated token is already
  in the table the INSERT raises and the store is unchanged.
\<close>

theorem create_stores_fresh_donation:
  assumes "logged sess" "req_method req = POST" "form req ''donor_name'' = Some n"
  shows "(generate_token e \<notin> set (map token (donations db)) \<longrightarrow>
            new_donation e sess req db =
              (Redirect (EpDonationQr (generate_token e)),
               db\<lparr>donations := donations db @
                      [\<lparr>row_id = next_row_id db, donor_name = n,
                        donor_phone = form req ''donor_phone'', donor_email = form req ''donor_email'',
                        donation_type = form req ''donation_type'',
                        quantity = form_quantity e (form req ''quantity''),
                        destination = form req ''destination'', created_at = now e,
                        status = Some ''Registrada'', token = generate_token e, photo_path = None\<rparr>],
                   donations_seq := next_row_id db,
                   qr_files := (qr_files db)(''qr_'' @ generate_token e @ ''.png''
                                               \<mapsto> track_url_for e (generate_token e))\<rparr>))
       \<and> (form req ''quantity'' = None \<or> form req ''quantity'' = Some [] \<longrightarrow>
            form_quantity e (form req ''quantity'') = SqlInt 0)
       \<and> (generate_token e \<in> set (map token (donations db)) \<longrightarrow>
            new_donation e sess req db = (Uncaught IntegrityError, db))"
  using assms new_body_created [OF assms(2,3), of e db sess] new_body_collision [OF assms(2), of e db sess]
    form_quantity_default [of "form req ''quantity''" e]
  by (simp add: new_logged)

theorem create_stores_fresh_donation_witness:
  "logged sess_admin \<and> req_method ex_post_new = POST \<and> form ex_post_new ''donor_name'' = Some ''Ana''
   \<and> form ex_post_new ''quantity'' = None
   \<and> generate_token ex_env_ones \<notin> set (map token (donations ex_db))
   \<and> fst (new_donation ex_env_ones sess_admin ex_post_new ex_db) = Redirect (EpDonationQr ''________________'')
   \<and> donations (snd (new_donation ex_env_ones sess_admin ex_post_new ex_db)) =
        [ex_d1, ex_d2,
         \<lparr>row_id = 3, donor_name = ''Ana'', donor_phone = None, donor_email = None,
           donation_type = None, quantity = SqlInt 0, destination = None,
           created_at = ''2025-03-01 10:00:00'', status = Some ''Registrada'',
           token = ''________________'', photo_path = None\<rparr>]
   \<and> qr_files (snd (new_donation ex_env_ones sess_admin ex_post_new ex_db)) ''qr_________________.png''
        = Some ''http://localhost:5000/track/________________''"
proof -
  have a: "logged sess_admin" by (rule ex_logged)
  have b: "req_method ex_post_new = POST" "form ex_post_new ''donor_name'' = Some ''Ana''"
    "form ex_post_new ''quantity'' = None" "form ex_post_new ''donor_phone'' = None"
    "form ex_post_new ''donor_email'' = None" "form ex_post_new ''donation_type'' = None"
    "form ex_post_new ''destination'' = None"
    by (simp_all add: ex_post_new_def)
  have c: "generate_token ex_env_ones \<notin> set (map token (donations ex_db))"
    by (simp add: ex_tokens ex_db_def ex_d1_def ex_d2_def)
  have d: "next_row_id ex_db = 3" "donations ex_db = [ex_d1, ex_d2]"
    by (simp_all add: next_row_id_def ex_db_def ex_d1_def ex_d2_def)
  have f: "now ex_env_ones = ''2025-03-01 10:00:00''"
    "track_url_for ex_env_ones ''________________'' = ''http://localhost:5000/track/________________''"
    by (simp_all add: ex_env_ones_def ex_env_def local_track_url_def)
  show ?thesis
    using create_stores_fresh_donation [OF a b(1,2), of ex_env_ones ex_db] a b c d f
    by (simp add: ex_tokens)
qed


section \<open>Token generation and collisions\<close>

text \<open>
  Two random sources that differ in their thirteenth byte give the same token, and a
  create request whose token is already in the table is not retried: it ends in the
  uncaught integrity error.
\<close>

theorem token_counterexample:
  "urandom ex_env_late 12 \<noteq> urandom ex_env_zero 12
   \<and> generate_token ex_env_late = generate_token ex_env_zero
   \<and> generate_token ex_env_zero = token ex_d2
   \<and> new_donation ex_env_zero sess_admin ex_post_new ex_db = (Uncaught IntegrityError, ex_db)"
proof -
  have "generate_token ex_env_zero \<in> set (map token (donations ex_db))"
    by (simp add: ex_tokens ex_db_def ex_d2_def)
  then have "new_donation ex_env_zero sess_admin ex_post_new ex_db = (Uncaught IntegrityError, ex_db)"
    by (simp add: ex_logged new_logged new_body_collision ex_post_new_def)
  moreover have "urandom ex_env_late 12 \<noteq> urandom ex_env_zero 12"
    by (simp add: ex_env_late_def ex_env_zero_def ex_env_def bytes_late_def bytes_zero_def)
  moreover have "token ex_d2 = ''AAAAAAAAAAAAAAAA''"
    by (simp add: ex_d2_def)
  ultimately show ?thesis
    by (simp add: ex_tokens)
qed

text \<open>
  Claim C8, amended. \<open>generate_token\<close> produces a URL-safe string of 16 characters that
  carries exactly 12 bytes of the random source: two sources give the same token if and only
  if they agree on their first 12 bytes. The create view does not generate a second token:
  when the generated token is already in the table, the INSERT raises on the UNIQUE column,
  the request ends in the uncaught error and the store is unchanged.
\<close>

theorem token_shape_and_collision:
  "length (generate_token e) = 16
   \<and> list_all url_safe (generate_token e)
   \<and> (generate_token e = generate_token e' \<longleftrightarrow> (\<forall>i<12. urandom e i = urandom e' i))
   \<and> (logged sess \<and> req_method req = POST
        \<and> generate_token e \<in> set (map token (donations db))
       \<longrightarrow> new_donation e sess req db = (Uncaught IntegrityError, db))"
proof -
  have "list_all url_safe (generate_token e)"
    using generate_token_chars [of e] alphabet_url_safe by (auto simp: list_all_iff)
  then show ?thesis
    using generate_token_eq_iff [of e e']
    by (simp add: generate_token_length new_logged new_body_collision)
qed

theorem token_shape_and_collision_witness:
  "length (generate_token ex_env_zero) = 16
   \<and> generate_token ex_env_zero = ''AAAAAAAAAAAAAAAA''
   \<and> generate_token ex_env_zero = generate_token ex_env_late
   \<and> logged sess_staff \<and> req_method ex_post_new = POST
   \<and> generate_token ex_env_zero \<in> set (map token (donations ex_db))
   \<and> new_donation ex_env_zero sess_staff ex_post_new ex_db = (Uncaught IntegrityError, ex_db)"
proof -
  have a: "req_method ex_post_new = POST" by (simp add: ex_post_new_def)
  have b: "generate_token ex_env_zero \<in> set (map token (donations ex_db))"
    by (simp add: ex_tokens ex_db_def ex_d2_def)
  show ?thesis
    using token_shape_and_collision [of ex_env_zero ex_env_late sess_staff ex_post_new ex_db]
      a b ex_logged(2) ex_tokens by simp
qed

section \<open>Tokens stay unique\<close>

text \<open>The UNIQUE column, as an invariant of the three views that write the table.\<close>

lemma stamp_tokens: "map token ds = map (\<lambda>p. fst (snd p)) (map stamp ds)"
  by (simp add: stamp_def)

lemma update_tokens_unique:
  "distinct (map token (donations db)) \<Longrightarrow>
   distinct (map token (donations (snd (update_donation e i sess req db))))"
  using update_stamp [of e i sess req db] by (simp add: stamp_tokens del: map_map)

lemma delete_tokens_unique:
  "distinct (map token (donations db)) \<Longrightarrow>
   distinct (map token (donations (snd (delete_donation i sess req db))))"
  by (simp add: delete_donation_def login_required_def role_required_def
      delete_donation_body_def delete_row_def distinct_map_filter split: option.splits)

lemma new_tokens_unique:
  "distinct (map token (donations db)) \<Longrightarrow>
   distinct (map token (donations (snd (new_donation e sess req db))))"
  by (auto simp: new_donation_def login_required_def new_donation_body_def insert_donation_def
      generate_qr_for_token_def Let_def split: option.splits)

section \<open>The public tracking page\<close>

lemma find_token_unique:
  "distinct (map token ds) \<Longrightarrow> d \<in> set ds \<Longrightarrow> find (\<lambda>x. token x = token d) ds = Some d"
  by (induction ds) auto

lemma find_token_absent:
  "(\<forall>d\<in>set ds. token d \<noteq> t) \<Longrightarrow> find (\<lambda>x. token x = t) ds = None"
  by (simp add: find_None_iff)

text \<open>
  Claim C6. For every token, the tracking view answers 404 when no donation in the table
  has that token; otherwise, tokens being unique in the table, it renders the stored row
  of the donation with that token, with its status and photo reference as stored (together
  with the tracking URL and the share link); in both cases the store is left as it was.
\<close>

theorem track_lookup:
  "((\<forall>d\<in>set (donations db). token d \<noteq> t) \<longrightarrow> track_donation e t db = (Abort 404, db))
   \<and> (distinct (map token (donations db)) \<and> d \<in> set (donations db) \<and> token d = t
        \<longrightarrow> track_donation e t db =
              (RenderTrack d (track_url_for e t)
                 (''https://wa.me/?text='' @ url_quote e (share_prefix @ track_url_for e t)), db))
   \<and> snd (track_donation e t db) = db"
proof -
  have "snd (track_donation e t db) = db"
    by (simp add: track_donation_def Let_def split: option.splits)
  moreover have "track_donation e t db = (Abort 404, db)" if "\<forall>d\<in>set (donations db). token d \<noteq> t"
    using find_token_absent [OF that] by (simp add: track_donation_def select_by_token_def)
  moreover have "track_donation e t db =
              (RenderTrack d (track_url_for e t)
                 (''https://wa.me/?text='' @ url_quote e (share_prefix @ track_url_for e t)), db)"
    if "distinct (map token (donations db))" "d \<in> set (donations db)" "token d = t"
    using find_token_unique [OF that(1,2)] that(3)
    by (simp add: track_donation_def select_by_token_def Let_def)
  ultimately show ?thesis by blast
qed

theorem track_lookup_witness:
  "distinct (map token (donations ex_db)) \<and> ex_d2 \<in> set (donations ex_db)
   \<and> token ex_d2 = ''AAAAAAAAAAAAAAAA''
   \<and> track_donation ex_env ''AAAAAAAAAAAAAAAA'' ex_db =
        (RenderTrack ex_d2 ''http://localhost:5000/track/AAAAAAAAAAAAAAAA''
           (''https://wa.me/?text='' @ share_prefix @ ''http://localhost:5000/track/AAAAAAAAAAAAAAAA''),
         ex_db)
   \<and> status ex_d2 = Some ''Entregada'' \<and> photo_path ex_d2 = Some ''uploads/donation_2.png''
   \<and> track_donation ex_env ''no-such-token'' ex_db = (Abort 404, ex_db)"
proof -
  have a: "distinct (map token (donations ex_db))" "ex_d2 \<in> set (donations ex_db)"
    "token ex_d2 = ''AAAAAAAAAAAAAAAA''" "status ex_d2 = Some ''Entregada''"
    "photo_path ex_d2 = Some ''uploads/donation_2.png''"
    by (simp_all add: ex_db_def ex_d1_def ex_d2_def)
  have b: "\<forall>d\<in>set (donations ex_db). token d \<noteq> ''no-such-token''"
    by (simp add: ex_db_def ex_d1_def ex_d2_def)
  have c: "track_url_for ex_env ''AAAAAAAAAAAAAAAA'' = ''http://localhost:5000/track/AAAAAAAAAAAAAAAA''"
    "url_quote ex_env = no_quote"
    by (simp_all add: ex_env_def local_track_url_def)
  show ?thesis
    using track_lookup [of ex_db "''AAAAAAAAAAAAAAAA''" ex_env ex_d2]
      track_lookup [of ex_db "''no-such-token''" ex_env ex_d2] a b c
    by (simp add: no_quote_def)
qed


section \<open>Login\<close>

lemma select_user_Some:
  "select_user db uname pw = Some u \<Longrightarrow>
   u \<in> set (users db) \<and> username u = Some uname \<and> password u = Some pw"
  by (auto simp: select_user_def find_Some_iff)

lemma select_user_None:
  "select_user db uname pw = None \<longleftrightarrow>
   \<not> (\<exists>u\<in>set (users db). username u = Some uname \<and> password u = Some pw)"
  by (auto simp: select_user_def find_None_iff)

text \<open>
  The submitted username and password carry a leading and a trailing blank; no stored user
  has exactly these values, yet the login succeeds as admin.
\<close>

theorem login_counterexample:
  "form ex_post_login ''username'' = Some '' admin''
   \<and> form ex_post_login ''password'' = Some ''agape2025 ''
   \<and> select_user ex_db '' admin'' ''agape2025 '' = None
   \<and> fst (login anonymous ex_post_login ex_db) = Redirect EpAdminList
   \<and> session_get (snd (login anonymous ex_post_login ex_db)) ''logged_in'' = PyBool True
   \<and> session_get (snd (login anonymous ex_post_login ex_db)) ''role'' = PyStr ''admin''"
proof -
  have "strip '' admin'' = ''admin''" "strip ''agape2025 '' = ''agape2025''"
    by (simp_all add: strip_def py_isspace_def)
  then show ?thesis
    by (simp add: login_def select_user_def form_get_def session_get_def opt_pyval_def Let_def
        ex_post_login_def ex_db_def ex_admin_def ex_staff_def anonymous_def)
qed

text \<open>
  Claim C9, amended. For every submitted (username, password) pair, the login succeeds if
  and only if some stored user's username and password are equal, as plain strings, to the
  submitted values with leading and trailing whitespace stripped. On success the answer is a
  redirect and the session holds \<open>logged_in = True\<close> and the \<open>user_id\<close>,
  \<open>username\<close> and \<open>role\<close> of such a user; otherwise the login page is rendered
  with the error message and the session is left as it was.
\<close>

theorem login_matches_stripped_credentials:
  assumes "req_method req = POST"
    and "uname = strip (form_get (form req) ''username'' [])"
    and "pw = strip (form_get (form req) ''password'' [])"
  shows "((\<exists>u\<in>set (users db). username u = Some uname \<and> password u = Some pw) \<longrightarrow>
            (\<exists>u\<in>set (users db). username u = Some uname \<and> password u = Some pw
               \<and> (\<exists>target. fst (login sess req db) = Redirect target)
               \<and> snd (login sess req db) =
                   sess(''logged_in'' \<mapsto> PyBool True, ''user_id'' \<mapsto> PyInt (int (user_id u)),
                        ''username'' \<mapsto> opt_pyval (username u), ''role'' \<mapsto> opt_pyval (role u))))
       \<and> (\<not> (\<exists>u\<in>set (users db). username u = Some uname \<and> password u = Some pw) \<longrightarrow>
            login sess req db = (RenderLogin (Some msg_bad_login), sess))"
proof (cases "select_user db uname pw")
  case None
  then have "\<not> (\<exists>u\<in>set (users db). username u = Some uname \<and> password u = Some pw)"
    by (simp add: select_user_None)
  with None assms show ?thesis by (simp add: login_def)
next
  case (Some u)
  from select_user_Some [OF Some] Some assms show ?thesis
    by (auto simp: login_def split: option.splits)
qed

theorem login_matches_stripped_credentials_witness:
  "req_method ex_post_login = POST
   \<and> strip (form_get (form ex_post_login) ''username'' []) = ''admin''
   \<and> strip (form_get (form ex_post_login) ''password'' []) = ''agape2025''
   \<and> ex_admin \<in> set (users ex_db)
   \<and> username ex_admin = Some ''admin'' \<and> password ex_admin = Some ''agape2025''
   \<and> fst (login anonymous ex_post_login ex_db) = Redirect EpAdminList
   \<and> snd (login anonymous ex_post_login ex_db) = sess_admin"
proof -
  have a: "req_method ex_post_login = POST" by (simp add: ex_post_login_def)
  have b: "''admin'' = strip (form_get (form ex_post_login) ''username'' [])"
    "''agape2025'' = strip (form_get (form ex_post_login) ''password'' [])"
    by (simp_all add: ex_post_login_def form_get_def strip_def py_isspace_def)
  have c: "ex_admin \<in> set (users ex_db)" "username ex_admin = Some ''admin''"
    "password ex_admin = Some ''agape2025''"
    by (simp_all add: ex_db_def ex_admin_def)
  have d: "login anonymous ex_post_login ex_db = (Redirect EpAdminList, sess_admin)"
    using b [symmetric]
    by (simp add: login_def select_user_def opt_pyval_def Let_def ex_db_def ex_admin_def ex_staff_def
        sess_admin_def anonymous_def ex_post_login_def)
  show ?thesis
    using login_matches_stripped_credentials [OF a b, of ex_db anonymous] a b [symmetric] c d
    by simp
qed


section \<open>The list\<close>

lemma has_substring_iff:
  "has_substring q s \<longleftrightarrow> (\<exists>k\<le>length s. take (length q) (drop k s) = q)"
proof (induction s)
  case Nil
  show ?case by auto
next
  case (Cons c cs)
  have "(\<exists>k\<le>length (c # cs). take (length q) (drop k (c # cs)) = q)
        \<longleftrightarrow> take (length q) (c # cs) = q \<or> (\<exists>k\<le>length cs. take (length q) (drop k cs) = q)"
  proof
    assume "\<exists>k\<le>length (c # cs). take (length q) (drop k (c # cs)) = q"
    then obtain k where k: "k \<le> length (c # cs)" "take (length q) (drop k (c # cs)) = q" by blast
    show "take (length q) (c # cs) = q \<or> (\<exists>k\<le>length cs. take (length q) (drop k cs) = q)"
    proof (cases k)
      case 0
      with k show ?thesis by simp
    next
      case (Suc j)
      with k have "j \<le> length cs" "take (length q) (drop j cs) = q" by simp_all
      then show ?thesis by blast
    qed
  next
    assume "take (length q) (c # cs) = q \<or> (\<exists>k\<le>length cs. take (length q) (drop k cs) = q)"
    then show "\<exists>k\<le>length (c # cs). take (length q) (drop k (c # cs)) = q"
    proof
      assume "take (length q) (c # cs) = q"
      then have "0 \<le> length (c # cs) \<and> take (length q) (drop 0 (c # cs)) = q" by simp
      then show ?thesis by blast
    next
      assume "\<exists>k\<le>length cs. take (length q) (drop k cs) = q"
      then obtain k where "k \<le> length cs" "take (length q) (drop k cs) = q" by blast
      then have "Suc k \<le> length (c # cs) \<and> take (length q) (drop (Suc k) (c # cs)) = q" by simp
      then show ?thesis by blast
    qed
  qed
  with Cons show ?case by simp
qed

lemma pattern_percent:
  "pattern_compare (CHR ''%'' # ps) s \<longleftrightarrow> (\<exists>k\<le>length s. pattern_compare ps (drop k s))"
proof (induction s)
  case Nil
  show ?case by simp
next
  case (Cons c cs)
  have "(\<exists>k\<le>length (c # cs). pattern_compare ps (drop k (c # cs)))
        \<longleftrightarrow> pattern_compare ps (c # cs) \<or> (\<exists>k\<le>length cs. pattern_compare ps (drop k cs))"
  proof
    assume "\<exists>k\<le>length (c # cs). pattern_compare ps (drop k (c # cs))"
    then obtain k where k: "k \<le> length (c # cs)" "pattern_compare ps (drop k (c # cs))" by blast
    show "pattern_compare ps (c # cs) \<or> (\<exists>k\<le>length cs. pattern_compare ps (drop k cs))"
    proof (cases k)
      case 0
      with k show ?thesis by simp
    next
      case (Suc j)
      with k have "j \<le> length cs" "pattern_compare ps (drop j cs)" by simp_all
      then show ?thesis by blast
    qed
  next
    assume "pattern_compare ps (c # cs) \<or> (\<exists>k\<le>length cs. pattern_compare ps (drop k cs))"
    then show "\<exists>k\<le>length (c # cs). pattern_compare ps (drop k (c # cs))"
    proof
      assume "pattern_compare ps (c # cs)"
      then have "0 \<le> length (c # cs) \<and> pattern_compare ps (drop 0 (c # cs))" by simp
      then show ?thesis by blast
    next
      assume "\<exists>k\<le>length cs. pattern_compare ps (drop k cs)"
      then obtain k where "k \<le> length cs" "pattern_compare ps (drop k cs)" by blast
      then have "Suc k \<le> length (c # cs) \<and> pattern_compare ps (drop (Suc k) (c # cs))" by simp
      then show ?thesis by blast
    qed
  qed
  with Cons show ?case by simp
qed

lemma pattern_any: "pattern_compare ''%'' s"
  by (induction s) simp_all

lemma pattern_literal:
  assumes "CHR ''%'' \<notin> set q" "CHR ''_'' \<notin> set q"
  shows "pattern_compare (q @ ''%'') s \<longleftrightarrow> take (length q) (map sqlite_fold s) = map sqlite_fold q"
  using assms
proof (induction q arbitrary: s)
  case Nil
  show ?case by (simp add: pattern_any)
next
  case (Cons p ps)
  show ?case
  proof (cases s)
    case Nil
    with Cons.prems show ?thesis by auto
  next
    case (Cons c cs)
    with Cons.prems Cons.IH [of cs] show ?thesis by auto
  qed
qed

lemma c_string_whole: "CHR 0x00 \<notin> set s \<Longrightarrow> c_string s = s"
  by (auto simp: c_string_def takeWhile_eq_all_conv)

lemma like_contains:
  assumes "CHR ''%'' \<notin> set q" "CHR ''_'' \<notin> set q" "CHR 0x00 \<notin> set q"
  shows "like (''%'' @ q @ ''%'') s \<longleftrightarrow> fold_contains q s"
proof -
  let ?t = "c_string s"
  have "CHR 0x00 \<notin> set (''%'' @ q @ ''%'')" using assms(3) by simp
  then have "c_string (''%'' @ q @ ''%'') = ''%'' @ q @ ''%''"
    by (rule c_string_whole)
  then have "like (''%'' @ q @ ''%'') s \<longleftrightarrow> pattern_compare (''%'' @ q @ ''%'') ?t"
    unfolding like_def by (simp only:)
  also have "\<dots> \<longleftrightarrow> (\<exists>k\<le>length ?t. pattern_compare (q @ ''%'') (drop k ?t))"
    using pattern_percent [of "q @ ''%''" ?t] by simp
  also have "\<dots> \<longleftrightarrow> (\<exists>k\<le>length ?t. take (length q) (map sqlite_fold (drop k ?t)) = map sqlite_fold q)"
    by (simp add: pattern_literal [OF assms(1,2)])
  also have "\<dots> \<longleftrightarrow> fold_contains q s"
    by (simp add: fold_contains_def has_substring_iff drop_map)
  finally show ?thesis .
qed

lemma col_like_contains:
  assumes "CHR ''%'' \<notin> set q" "CHR ''_'' \<notin> set q" "CHR 0x00 \<notin> set q"
  shows "col_like (''%'' @ q @ ''%'') v \<longleftrightarrow> col_fold_contains q v"
  using like_contains [OF assms]
  by (simp add: col_like_def col_fold_contains_def split: option.splits)

lemma where_clause_contains:
  assumes "CHR ''%'' \<notin> set q" "CHR ''_'' \<notin> set q" "CHR 0x00 \<notin> set q"
  shows "where_clause q sf d \<longleftrightarrow>
           (q = [] \<or> fold_contains q (donor_name d) \<or> col_fold_contains q (donor_phone d)
              \<or> col_fold_contains q (donor_email d) \<or> col_fold_contains q (donation_type d)
              \<or> col_fold_contains q (destination d) \<or> fold_contains q (token d))
           \<and> (sf = [] \<or> status d = Some sf)"
  using like_contains [OF assms] col_like_contains [OF assms]
  by (simp add: where_clause_def Let_def)

text \<open>
  What follows a NUL character in the query is not compared, nor is the closing \<open>%\<close>:
  the query \<open>uis\<close>, NUL, \<open>xyz\<close> finds the name Luis, which ends in \<open>uis\<close>.
\<close>

lemma like_nul_example:
  "like (''%'' @ ''uis'' @ [CHR 0x00] @ ''xyz'' @ ''%'') ''Luis''
   \<and> \<not> like (''%'' @ ''ui'' @ [CHR 0x00] @ ''xyz'' @ ''%'') ''Luis''
   \<and> \<not> like ''%b%'' (''a'' @ [CHR 0x00] @ ''b'')"
  by code_simp

lemma mset_insert_desc: "mset (insert_desc x ys) = add_mset x (mset ys)"
  by (induction ys) simp_all

lemma set_insert_desc: "set (insert_desc x ys) = insert x (set ys)"
  by (induction ys) auto

lemma sorted_insert_desc:
  "sorted_wrt (\<lambda>a b. created_at b \<le> created_at a) ys \<Longrightarrow>
   sorted_wrt (\<lambda>a b. created_at b \<le> created_at a) (insert_desc x ys)"
  by (induction ys) (auto simp: set_insert_desc)

lemma mset_order_by: "mset (order_by_created_at_desc rows) = mset rows"
  by (induction rows) (simp_all add: order_by_created_at_desc_def mset_insert_desc)

lemma sorted_order_by:
  "sorted_wrt (\<lambda>a b. created_at b \<le> created_at a) (order_by_created_at_desc rows)"
  by (induction rows) (simp_all add: order_by_created_at_desc_def sorted_insert_desc)


lemma admin_list_logged:
  "logged sess \<Longrightarrow> admin_list sess req db = admin_list_body sess req db"
  by (simp add: admin_list_def login_required_def logged_def)

lemma admin_list_within_limit:
  assumes "logged sess"
    and "utf8_length (''%'' @ strip (form_get (args req) ''q'' []) @ ''%'') \<le> like_pattern_limit"
  shows "admin_list sess req db =
           (RenderAdminList
              (order_by_created_at_desc
                 (filter (where_clause (strip (form_get (args req) ''q'' []))
                                       (strip (form_get (args req) ''status'' [])))
                         (donations db)))
              (strip (form_get (args req) ''q'' [])) (strip (form_get (args req) ''status'' [])), db)"
  using assms by (simp add: admin_list_logged admin_list_body_def Let_def)

text \<open>A query whose pattern exceeds the limit, on a table with a row, ends in the error.\<close>

lemma admin_list_pattern_too_long:
  assumes "logged sess" "strip (form_get (args req) ''q'' []) \<noteq> []"
    and "like_pattern_limit < utf8_length (''%'' @ strip (form_get (args req) ''q'' []) @ ''%'')"
    and "donations db \<noteq> []"
  shows "admin_list sess req db = (Uncaught OperationalError, db)"
  using assms by (simp add: admin_list_logged admin_list_body_def Let_def)

lemma ex_search_args:
  "strip (form_get (args ex_get_search) ''q'' []) = ''ana''"
  "strip (form_get (args ex_get_search) ''status'' []) = []"
  "strip (form_get (args ex_get_all) ''q'' []) = []"
  "strip (form_get (args ex_get_all) ''status'' []) = []"
  by (simp_all add: ex_get_search_def ex_get_all_def form_get_def strip_def py_isspace_def)

lemma ex_search_limit:
  "utf8_length ''%ana%'' \<le> like_pattern_limit" "utf8_length ''%%'' \<le> like_pattern_limit"
  by (simp_all add: utf8_length_def like_pattern_limit_def)

lemma ex_search_rows:
  "where_clause ''ana'' [] ex_d1" "\<not> where_clause ''ana'' [] ex_d2"
  "where_clause [] [] ex_d1" "where_clause [] [] ex_d2"
  by code_simp+

lemma ex_search_result:
  "admin_list sess_admin ex_get_search ex_db = (RenderAdminList [ex_d1] ''ana'' [], ex_db)"
  using admin_list_within_limit [of sess_admin ex_get_search ex_db] ex_search_rows
  by (simp add: ex_logged ex_search_args ex_search_limit order_by_created_at_desc_def ex_db_def)

lemma ex_list_all_result:
  "admin_list sess_admin ex_get_all ex_db = (RenderAdminList [ex_d2, ex_d1] [] [], ex_db)"
proof -
  have "created_at ex_d1 < created_at ex_d2" by (simp add: ex_d1_def ex_d2_def)
  with admin_list_within_limit [of sess_admin ex_get_all ex_db] ex_search_rows show ?thesis
    by (simp add: ex_logged ex_search_args ex_search_limit order_by_created_at_desc_def ex_db_def)
qed

text \<open>
  The query \<open>ana\<close> returns the donation of \<open>Ana\<close>, none of whose searched fields
  contains \<open>ana\<close> as a case-sensitive substring.
\<close>

theorem list_counterexample:
  "strip (form_get (args ex_get_search) ''q'' []) = ''ana''
   \<and> fst (admin_list sess_admin ex_get_search ex_db) = RenderAdminList [ex_d1] ''ana'' []
   \<and> \<not> spec_list_filter ''ana'' [] ex_d1"
proof -
  have "\<not> spec_list_filter ''ana'' [] ex_d1"
    by (simp add: spec_list_filter_def col_has_substring_def ex_d1_def)
  then show ?thesis by (simp add: ex_search_args ex_search_result)
qed

text \<open>
  Claim C5, amended. For every store state and every (query, status filter) pair sent by a
  logged-in session, with the query and the status filter stripped of surrounding
  whitespace and the LIKE pattern \<open>%query%\<close> at most 50000 bytes long in UTF-8, the
  list returns exactly the donations that satisfy both filters, ordered by creation time
  descending. When the query is non-empty, at least one of donor name, phone, email,
  donation type, destination or token must match the LIKE pattern \<open>%query%\<close>; for a
  query without the characters \<open>%\<close>, \<open>_\<close> and NUL this is: the field, read up to
  its first NUL character, contains the query as a substring up to the case of the letters
  A to Z. When the status filter is non-empty the status must equal it exactly.
\<close>

theorem list_filters_and_order:
  assumes "logged sess"
    and "q = strip (form_get (args req) ''q'' [])"
    and "sf = strip (form_get (args req) ''status'' [])"
    and "utf8_length (''%'' @ q @ ''%'') \<le> like_pattern_limit"
  shows "(\<exists>rows. admin_list sess req db = (RenderAdminList rows q sf, db)
            \<and> mset rows = mset (filter (where_clause q sf) (donations db))
            \<and> sorted_wrt (\<lambda>a b. created_at b \<le> created_at a) rows)
       \<and> (CHR ''%'' \<notin> set q \<and> CHR ''_'' \<notin> set q \<and> CHR 0x00 \<notin> set q \<longrightarrow>
            where_clause q sf d =
              ((q = [] \<or> fold_contains q (donor_name d) \<or> col_fold_contains q (donor_phone d)
                  \<or> col_fold_contains q (donor_email d) \<or> col_fold_contains q (donation_type d)
                  \<or> col_fold_contains q (destination d) \<or> fold_contains q (token d))
               \<and> (sf = [] \<or> status d = Some sf)))"
proof -
  have "admin_list sess req db =
          (RenderAdminList (order_by_created_at_desc (filter (where_clause q sf) (donations db))) q sf, db)"
    using admin_list_within_limit [of sess req db] assms by simp
  then have "\<exists>rows. admin_list sess req db = (RenderAdminList rows q sf, db)
            \<and> mset rows = mset (filter (where_clause q sf) (donations db))
            \<and> sorted_wrt (\<lambda>a b. created_at b \<le> created_at a) rows"
    using mset_order_by sorted_order_by by blast
  then show ?thesis using where_clause_contains [of q sf d] by blast
qed

theorem list_filters_and_order_witness:
  "logged sess_admin
   \<and> strip (form_get (args ex_get_search) ''q'' []) = ''ana''
   \<and> strip (form_get (args ex_get_search) ''status'' []) = []
   \<and> utf8_length ''%ana%'' \<le> like_pattern_limit
   \<and> admin_list sess_admin ex_get_search ex_db = (RenderAdminList [ex_d1] ''ana'' [], ex_db)
   \<and> CHR ''%'' \<notin> set ''ana'' \<and> CHR ''_'' \<notin> set ''ana'' \<and> CHR 0x00 \<notin> set ''ana''
   \<and> where_clause ''ana'' [] ex_d1 \<and> fold_contains ''ana'' (donor_name ex_d1)
   \<and> admin_list sess_admin ex_get_all ex_db = (RenderAdminList [ex_d2, ex_d1] [] [], ex_db)"
proof -
  have a: "logged sess_admin" by (rule ex_logged)
  have l: "utf8_length (''%'' @ ''ana'' @ ''%'') \<le> like_pattern_limit"
    using ex_search_limit(1) by simp
  have f: "fold_contains ''ana'' (donor_name ex_d1)"
    by code_simp
  show ?thesis
    using list_filters_and_order [OF a ex_search_args(1) [symmetric] ex_search_args(2) [symmetric] l,
        of ex_db ex_d1]
      a ex_search_args ex_search_limit ex_search_rows f ex_search_result ex_list_all_result
    by simp
qed

end
